theory Spec2Isabelle
  imports Complex_Main "HOL-Library.Word"
begin

section \<open>JavaScript strings\<close>

text \<open>
  A JavaScript string is a sequence of UTF-16 code units, and \<open>substring\<close>,
  \<open>indexOf\<close>, \<open>trim\<close> and \<open>JSON.parse\<close> all count and compare code
  units. A string of the program is therefore a list of 16-bit words; \<open>js\<close> embeds an
  ASCII literal of the source.
\<close>

type_synonym jschar = "16 word"
type_synonym jsstring = "jschar list"

definition js :: "string \<Rightarrow> jsstring" where
  "js s = map of_char s"

text \<open>
  \<open>String(n)\<close> and \<open>${n}\<close> for a whole number: its decimal digits.
\<close>

fun digits_of :: "nat \<Rightarrow> jsstring" where
  "digits_of n =
     (if n < 10 then [0x30 + of_nat n]
      else digits_of (n div 10) @ [0x30 + of_nat (n mod 10)])"

declare digits_of.simps [simp del]

definition String_of_int :: "int \<Rightarrow> jsstring" where
  "String_of_int k = (if k < 0 then 0x2D # digits_of (nat (- k)) else digits_of (nat k))"

definition startsWith :: "jsstring \<Rightarrow> jsstring \<Rightarrow> bool" where
  "startsWith s p \<longleftrightarrow> take (length p) s = p"

text \<open>
  \<open>s.indexOf(c)\<close> for a one-character \<open>c\<close> is the first position of \<open>c\<close>, or
  \<open>-1\<close>. \<open>s.substring(start)\<close> and \<open>s.substring(start, end)\<close> clamp their
  arguments to \<open>0 .. s.length\<close> and swap them when \<open>start > end\<close>.
  \<open>replace_fences\<close> is \<open>.replace(/```json|```/g, '')\<close>: scanning from the left,
  at each position the first alternative that matches is removed, three backquotes
  (code unit \<open>0x60\<close>) with \<open>json\<close> after them or else three backquotes alone;
  where neither matches, the character stays. \<open>trim\<close> removes the white space
  and line terminators of ECMAScript from both ends.
\<close>

fun indexOf :: "jsstring \<Rightarrow> jschar \<Rightarrow> int" where
  "indexOf [] c = - 1"
| "indexOf (x # xs) c =
     (if x = c then 0 else (let k = indexOf xs c in if k < 0 then - 1 else k + 1))"

definition substring_from :: "jsstring \<Rightarrow> int \<Rightarrow> jsstring" where
  "substring_from s start = drop (nat (max 0 start)) s"

definition substring :: "jsstring \<Rightarrow> int \<Rightarrow> int \<Rightarrow> jsstring" where
  "substring s start fin =
     (let len = int (length s);
          a = min (max 0 start) len;
          b = min (max 0 fin) len
      in take (nat (max a b - min a b)) (drop (nat (min a b)) s))"

definition fence :: jsstring where
  "fence = [0x60, 0x60, 0x60]"

lemma startsWith_length: "startsWith s p \<Longrightarrow> length p \<le> length s"
  by (metis startsWith_def length_take min.cobounded1)

function replace_fences :: "jsstring \<Rightarrow> jsstring" where
  "replace_fences s =
     (if startsWith s (fence @ js ''json'') then replace_fences (drop 7 s)
      else if startsWith s fence then replace_fences (drop 3 s)
      else (case s of
              [] \<Rightarrow> []
            | c # r \<Rightarrow> c # replace_fences r))"
  by pat_completeness auto
termination
proof (relation "measure length", goal_cases)
  case 1
  then show ?case by simp
next
  case (2 s)
  then show ?case
    using startsWith_length [of s "fence @ js ''json''"] by (simp add: fence_def js_def)
next
  case (3 s)
  then show ?case
    using startsWith_length [of s fence] by (simp add: fence_def)
next
  case (4 s c r)
  then show ?case by simp
qed

declare replace_fences.simps [simp del]

definition is_js_space :: "jschar \<Rightarrow> bool" where
  "is_js_space c \<longleftrightarrow>
     c = 0x09 \<or> c = 0x0A \<or> c = 0x0B \<or> c = 0x0C \<or> c = 0x0D \<or> c = 0x20 \<or> c = 0xA0
     \<or> c = 0x1680 \<or> (0x2000 \<le> c \<and> c \<le> 0x200A) \<or> c = 0x2028 \<or> c = 0x2029
     \<or> c = 0x202F \<or> c = 0x205F \<or> c = 0x3000 \<or> c = 0xFEFF"

definition trim :: "jsstring \<Rightarrow> jsstring" where
  "trim s = rev (dropWhile is_js_space (rev (dropWhile is_js_space s)))"

section \<open>\<open>JSON.parse\<close>\<close>

text \<open>
  The values \<open>JSON.parse\<close> returns, and the parse itself, after the JSON grammar of
  ECMAScript: white space is space, tab, line feed and carriage return; a string is
  quoted, has no raw control character and the escapes
  \<^verbatim>\<open>\" \\ \/ \b \f \n \r \t \uXXXX\<close>; a number is
  \<^verbatim>\<open>-? (0 | [1-9][0-9]*) (. [0-9]+)? ([eE] [+-]? [0-9]+)?\<close>; the literals
  are \<open>true\<close>, \<open>false\<close> and \<open>null\<close>. \<open>None\<close> is the \<open>SyntaxError\<close> that
  \<open>JSON.parse\<close> throws. A number keeps its lexeme (the program never reads its
  value), an object its members in the order of the text.

  Each parser returns the value and the rest of the input. The tests
  \<open>length r < length s\<close> in \<open>parse_elements\<close> and \<open>parse_members\<close> make the recursion
  well-founded by themselves; \<open>parse_value_consumes\<close> below shows that they always
  hold, and \<open>parse_elements_unguarded\<close> and \<open>parse_members_unguarded\<close> give the
  two functions without them.
\<close>

datatype json =
    JNull
  | JBool bool
  | JNumber jsstring
  | JString jsstring
  | JArray "json list"
  | JObject "(jsstring \<times> json) list"

definition is_json_ws :: "jschar \<Rightarrow> bool" where
  "is_json_ws c \<longleftrightarrow> c = 0x20 \<or> c = 0x09 \<or> c = 0x0A \<or> c = 0x0D"

definition skip_ws :: "jsstring \<Rightarrow> jsstring" where
  "skip_ws s = dropWhile is_json_ws s"

definition is_digit :: "jschar \<Rightarrow> bool" where
  "is_digit c \<longleftrightarrow> 0x30 \<le> c \<and> c \<le> 0x39"

definition hex_digit :: "jschar \<Rightarrow> jschar option" where
  "hex_digit c =
     (if 0x30 \<le> c \<and> c \<le> 0x39 then Some (c - 0x30)
      else if 0x41 \<le> c \<and> c \<le> 0x46 then Some (c - 0x41 + 10)
      else if 0x61 \<le> c \<and> c \<le> 0x66 then Some (c - 0x61 + 10)
      else None)"

definition hex4 :: "jschar \<Rightarrow> jschar \<Rightarrow> jschar \<Rightarrow> jschar \<Rightarrow> jschar option" where
  "hex4 a b c d =
     (case (hex_digit a, hex_digit b, hex_digit c, hex_digit d) of
        (Some x, Some y, Some z, Some w) \<Rightarrow> Some (((x * 16 + y) * 16 + z) * 16 + w)
      | _ \<Rightarrow> None)"

definition unescape :: "jschar \<Rightarrow> jschar option" where
  "unescape e =
     (if e = 0x22 \<or> e = 0x5C \<or> e = 0x2F then Some e
      else if e = 0x62 then Some 0x08
      else if e = 0x66 then Some 0x0C
      else if e = 0x6E then Some 0x0A
      else if e = 0x72 then Some 0x0D
      else if e = 0x74 then Some 0x09
      else None)"

fun json_string_body :: "jsstring \<Rightarrow> (jsstring \<times> jsstring) option" where
  "json_string_body [] = None"
| "json_string_body (c # r) =
     (if c = 0x22 then Some ([], r)
      else if c = 0x5C then
        (case r of
           [] \<Rightarrow> None
         | e # r' \<Rightarrow>
             if e = 0x75 then
               (case r' of
                  h1 # h2 # h3 # h4 # r'' \<Rightarrow>
                    (case hex4 h1 h2 h3 h4 of
                       None \<Rightarrow> None
                     | Some u \<Rightarrow>
                         (case json_string_body r'' of
                            None \<Rightarrow> None
                          | Some (str, rest) \<Rightarrow> Some (u # str, rest)))
                | _ \<Rightarrow> None)
             else
               (case unescape e of
                  None \<Rightarrow> None
                | Some u \<Rightarrow>
                    (case json_string_body r' of
                       None \<Rightarrow> None
                     | Some (str, rest) \<Rightarrow> Some (u # str, rest))))
      else if c < 0x20 then None
      else (case json_string_body r of
              None \<Rightarrow> None
            | Some (str, rest) \<Rightarrow> Some (c # str, rest)))"

definition json_digits :: "jsstring \<Rightarrow> (jsstring \<times> jsstring) option" where
  "json_digits s =
     (if takeWhile is_digit s = [] then None
      else Some (takeWhile is_digit s, dropWhile is_digit s))"

definition json_int :: "jsstring \<Rightarrow> (jsstring \<times> jsstring) option" where
  "json_int s =
     (case s of
        [] \<Rightarrow> None
      | d # r \<Rightarrow>
          if \<not> is_digit d then None
          else if d = 0x30 then Some ([d], r)
          else Some (d # takeWhile is_digit r, dropWhile is_digit r))"

definition json_frac :: "jsstring \<Rightarrow> (jsstring \<times> jsstring) option" where
  "json_frac s =
     (case s of
        [] \<Rightarrow> Some ([], s)
      | p # r \<Rightarrow>
          if p = 0x2E then
            (case json_digits r of
               None \<Rightarrow> None
             | Some (ds, r') \<Rightarrow> Some (p # ds, r'))
          else Some ([], s))"

definition json_exp :: "jsstring \<Rightarrow> (jsstring \<times> jsstring) option" where
  "json_exp s =
     (case s of
        [] \<Rightarrow> Some ([], s)
      | e # r \<Rightarrow>
          if e = 0x65 \<or> e = 0x45 then
            (let (esign, r') =
                   (case r of
                      [] \<Rightarrow> ([], r)
                    | g # r'' \<Rightarrow> if g = 0x2B \<or> g = 0x2D then ([g], r'') else ([], r))
             in case json_digits r' of
                  None \<Rightarrow> None
                | Some (ds, rest) \<Rightarrow> Some (e # esign @ ds, rest))
          else Some ([], s))"

definition json_number :: "jsstring \<Rightarrow> (jsstring \<times> jsstring) option" where
  "json_number s =
     (let (sign, r0) =
            (case s of
               [] \<Rightarrow> ([], s)
             | c # r \<Rightarrow> if c = 0x2D then ([c], r) else ([], s))
      in case json_int r0 of
           None \<Rightarrow> None
         | Some (ipart, r1) \<Rightarrow>
             (case json_frac r1 of
                None \<Rightarrow> None
              | Some (fpart, r2) \<Rightarrow>
                  (case json_exp r2 of
                     None \<Rightarrow> None
                   | Some (epart, r3) \<Rightarrow> Some (sign @ ipart @ fpart @ epart, r3))))"

definition json_literal :: "jsstring \<Rightarrow> json \<Rightarrow> jsstring \<Rightarrow> (json \<times> jsstring) option" where
  "json_literal word v s =
     (if take (length word) s = word then Some (v, drop (length word) s) else None)"

lemma skip_ws_length: "length (skip_ws s) \<le> length s"
  by (simp add: skip_ws_def length_dropWhile_le)

lemma json_string_body_length:
  "json_string_body s = Some (str, rest) \<Longrightarrow> length rest < length s"
proof (induction s arbitrary: str rest rule: json_string_body.induct)
  case 1
  then show ?case by simp
next
  case (2 c r)
  then show ?case
    by (fastforce split: if_splits list.splits option.splits)
qed

function parse_value :: "jsstring \<Rightarrow> (json \<times> jsstring) option"
  and parse_elements :: "jsstring \<Rightarrow> (json list \<times> jsstring) option"
  and parse_members :: "jsstring \<Rightarrow> ((jsstring \<times> json) list \<times> jsstring) option"
where
  "parse_value s =
     (case s of
        [] \<Rightarrow> None
      | c # r \<Rightarrow>
          if c = 0x22 then
            (case json_string_body r of
               None \<Rightarrow> None
             | Some (str, rest) \<Rightarrow> Some (JString str, rest))
          else if c = 0x5B then
            (case skip_ws r of
               [] \<Rightarrow> None
             | d # r' \<Rightarrow>
                 if d = 0x5D then Some (JArray [], r')
                 else (case parse_elements (skip_ws r) of
                         None \<Rightarrow> None
                       | Some (vs, rest) \<Rightarrow> Some (JArray vs, rest)))
          else if c = 0x7B then
            (case skip_ws r of
               [] \<Rightarrow> None
             | d # r' \<Rightarrow>
                 if d = 0x7D then Some (JObject [], r')
                 else (case parse_members (skip_ws r) of
                         None \<Rightarrow> None
                       | Some (ms, rest) \<Rightarrow> Some (JObject ms, rest)))
          else if c = 0x74 then json_literal (js ''true'') (JBool True) s
          else if c = 0x66 then json_literal (js ''false'') (JBool False) s
          else if c = 0x6E then json_literal (js ''null'') JNull s
          else if c = 0x2D \<or> is_digit c then
            (case json_number s of
               None \<Rightarrow> None
             | Some (lexeme, rest) \<Rightarrow> Some (JNumber lexeme, rest))
          else None)"
| "parse_elements s =
     (case parse_value s of
        None \<Rightarrow> None
      | Some (v, r) \<Rightarrow>
          if length r < length s then
            (case skip_ws r of
               [] \<Rightarrow> None
             | c # r' \<Rightarrow>
                 if c = 0x2C then
                   (case parse_elements (skip_ws r') of
                      None \<Rightarrow> None
                    | Some (vs, rest) \<Rightarrow> Some (v # vs, rest))
                 else if c = 0x5D then Some ([v], r')
                 else None)
          else None)"
| "parse_members s =
     (case s of
        [] \<Rightarrow> None
      | q # r \<Rightarrow>
          if q \<noteq> 0x22 then None
          else
            (case json_string_body r of
               None \<Rightarrow> None
             | Some (k, r1) \<Rightarrow>
                 (case skip_ws r1 of
                    [] \<Rightarrow> None
                  | col # r2 \<Rightarrow>
                      if col \<noteq> 0x3A then None
                      else
                        (case parse_value (skip_ws r2) of
                           None \<Rightarrow> None
                         | Some (v, r3) \<Rightarrow>
                             if length r3 < length (skip_ws r2) then
                               (case skip_ws r3 of
                                  [] \<Rightarrow> None
                                | c # r4 \<Rightarrow>
                                    if c = 0x2C then
                                      (case parse_members (skip_ws r4) of
                                         None \<Rightarrow> None
                                       | Some (ms, rest) \<Rightarrow> Some ((k, v) # ms, rest))
                                    else if c = 0x7D then Some ([(k, v)], r4)
                                    else None)
                             else None))))"
  by pat_completeness auto
termination
proof (relation "measure (\<lambda>x. case x of
          Inl s \<Rightarrow> 2 * length s
        | Inr (Inl s) \<Rightarrow> 2 * length s + 1
        | Inr (Inr s) \<Rightarrow> 2 * length s + 1)", goal_cases)
  case 1
  then show ?case by simp
next
  case (2 s c r d r')
  then show ?case using skip_ws_length [of r] by simp
next
  case (3 s c r d r')
  then show ?case using skip_ws_length [of r] by simp
next
  case (4 s)
  then show ?case by simp
next
  case (5 s x2 v r c r')
  then show ?case using skip_ws_length [of r] skip_ws_length [of r'] by simp
next
  case (6 s q r x2 k r1 col r2)
  then show ?case
    using skip_ws_length [of r1] skip_ws_length [of r2] json_string_body_length [of r k r1]
    by simp
next
  case (7 s q r x2 k r1 col r2 x2a v r3 c r4)
  then show ?case
    using skip_ws_length [of r1] skip_ws_length [of r2] skip_ws_length [of r3]
      skip_ws_length [of r4] json_string_body_length [of r k r1]
    by simp
qed

declare parse_value.simps [simp del] parse_elements.simps [simp del]
  parse_members.simps [simp del]

definition JSON_parse :: "jsstring \<Rightarrow> json option" where
  "JSON_parse s =
     (case parse_value (skip_ws s) of
        None \<Rightarrow> None
      | Some (v, rest) \<Rightarrow> if skip_ws rest = [] then Some v else None)"

section \<open>Numbers: the doubles of \<open>sleep\<close> and \<open>parseInt\<close>\<close>

text \<open>
  A JavaScript number is an IEEE 754 double: a sign, a significand of at most 53 bits and
  a power of two. The numbers of this program are not negative, and the two places where
  a double is not the exact result are the product \<open>Math.random() * 1000\<close> and
  \<open>parseInt\<close> of a long string of digits. Both round a non-negative value
  \<open>n / 2^e\<close>, with \<open>n\<close> a natural number, to the nearest double, ties to the even
  significand: that is \<open>round53 n / 2^e\<close>, where \<open>round53\<close> keeps the 53 leading
  bits of \<open>n\<close>. (The least exponent of a double, \<open>-1074\<close>, is not in the way: with
  \<open>e\<close> at most 1074, a value \<open>n / 2^e\<close> below \<open>2^-1021\<close> has at most 53 bits
  and is exact.)

  \<open>bitlen n\<close> is the number of bits of \<open>n\<close>.
\<close>

fun bitlen :: "nat \<Rightarrow> nat" where
  "bitlen n = (if n = 0 then 0 else Suc (bitlen (n div 2)))"

declare bitlen.simps [simp del]

definition round53 :: "nat \<Rightarrow> nat" where
  "round53 n =
     (let t = bitlen n - 53; q = n div 2 ^ t; r = n mod 2 ^ t
      in if 2 * r < 2 ^ t \<or> (2 * r = 2 ^ t \<and> even q) then q * 2 ^ t else (q + 1) * 2 ^ t)"

text \<open>
  A number that is a whole number, or \<open>Infinity\<close>, which a double becomes from
  \<open>2^1024\<close> on.
\<close>

datatype number = Number nat | Infinity

section \<open>The backoff delay: \<open>sleep\<close>\<close>

text \<open>
  \<^verbatim>\<open>const delay = Math.pow(2, attempt) * 1000 + Math.floor(Math.random() * 1000);\<close>

  \<open>Math.random()\<close> returns a double that is at least 0 and less than 1: the draw,
  \<open>significand / 2^exponent\<close> with a significand below \<open>2^53\<close> and below
  \<open>2^exponent\<close>, and an exponent of at most 1074. Every double in \<open>[0, 1)\<close> is such
  a draw, and every such draw is a double.
\<close>

record draw =
  significand :: nat
  exponent :: nat

definition is_draw :: "draw \<Rightarrow> bool" where
  "is_draw d \<longleftrightarrow>
     significand d < 2 ^ 53 \<and> exponent d \<le> 1074 \<and> significand d < 2 ^ exponent d"

definition draw_value :: "draw \<Rightarrow> real" where
  "draw_value d = real (significand d) / 2 ^ exponent d"

text \<open>
  \<^verbatim>\<open>Math.floor(Math.random() * 1000)\<close>: the product of the two doubles is the double
  \<open>round53 (significand * 1000) / 2^exponent\<close>, and \<open>Math.floor\<close> of a double is
  exact.
\<close>

definition jitter :: "draw \<Rightarrow> nat" where
  "jitter d = round53 (significand d * 1000) div 2 ^ exponent d"

text \<open>
  The delay, in milliseconds, is a product and a sum of doubles that are whole numbers.
  (\<open>Math.pow(2, attempt)\<close> is exact; the loops pass the attempts 0 to 4, and a
  double overflows only from attempt 1015 on.) What \<open>setTimeout\<close> then does with the
  delay is not modelled: \<open>await sleep(i)\<close> is the event \<open>Sleep i\<close> of a run.
\<close>

definition sleep_delay :: "nat \<Rightarrow> draw \<Rightarrow> nat" where
  "sleep_delay attempt d = round53 (round53 (2 ^ attempt * 1000) + jitter d)"

section \<open>The remote capability and its responses\<close>

text \<open>
  \<open>generateContent\<close> either throws or returns a result whose \<open>response\<close> may be
  missing. A response may lack \<open>candidates\<close>; a candidate may lack its content (then
  reading \<open>content.parts\<close> throws a \<open>TypeError\<close>); a part has an optional \<open>text\<close>
  and an optional \<open>inlineData\<close> with its \<open>mimeType\<close> and base64 \<open>data\<close>.
\<close>

datatype js_error = Error jsstring | TypeError | SyntaxError

datatype inline_data = InlineData (mimeType: jsstring) (data: jsstring)

datatype part = Part (part_text: "jsstring option") (inlineData: "inline_data option")

datatype candidate = Candidate (content_parts: "part list option")

datatype response = Response (candidates: "candidate list option")

datatype outcome = Throws js_error | Returns "response option"

text \<open>
  What a run does besides computing its result: the remote call of loop iteration \<open>i\<close>
  (\<open>Attempt i\<close>), a \<open>console.warn\<close> of a failed attempt with the number it prints
  (\<open>i + 1\<close>) and its cause, \<open>await sleep(i)\<close>, the warning of the scene-prompt
  fallback, an image file written under \<open>public/images\<close>, and the audio file
  written under \<open>public/audio\<close> with its bytes. What \<open>console.log\<close> and
  \<open>console.error\<close> print is left out.
\<close>

datatype warning =
    Fallido_cuento
  | Fallido_prompts
  | Fallido_parsear
  | Fallido_imagen
  | Fallido_sin_datos
  | Fallido_audio
  | Fallido_error js_error

datatype event =
    Attempt nat
  | Warn nat warning
  | Sleep nat
  | Warn_fallback
  | Write_file jsstring
  | Write_audio jsstring "8 word list"

definition maxAttempts :: nat where
  "maxAttempts = 5"

text \<open>
  \<^verbatim>\<open>response && response.candidates && response.candidates.length > 0\<close>
\<close>

definition has_candidates :: "response option \<Rightarrow> bool" where
  "has_candidates r =
     (case r of
        None \<Rightarrow> False
      | Some resp \<Rightarrow>
          (case candidates resp of
             None \<Rightarrow> False
           | Some cs \<Rightarrow> cs \<noteq> []))"

text \<open>
  \<^verbatim>\<open>response.candidates[0].content.parts\<close>, read once the candidates are known
  to be there: a \<open>TypeError\<close> when the content is missing.
\<close>

definition first_parts :: "response option \<Rightarrow> js_error + part list" where
  "first_parts r =
     (case r of
        Some (Response (Some (c # cs))) \<Rightarrow>
          (case content_parts c of
             None \<Rightarrow> Inl TypeError
           | Some ps \<Rightarrow> Inr ps)
      | _ \<Rightarrow> Inl TypeError)"

text \<open>
  \<^verbatim>\<open>response.candidates[0].content.parts[0].text\<close>: a \<open>TypeError\<close> when there is
  no first part, \<open>undefined\<close> (\<open>None\<close>) when the first part has no text.
\<close>

definition first_text :: "response option \<Rightarrow> js_error + jsstring option" where
  "first_text r =
     (case first_parts r of
        Inl e \<Rightarrow> Inl e
      | Inr [] \<Rightarrow> Inl TypeError
      | Inr (p # ps) \<Rightarrow> Inr (part_text p))"

text \<open>A string variable is falsy when it is \<open>null\<close>, \<open>undefined\<close> or empty.\<close>

definition falsy :: "jsstring option \<Rightarrow> bool" where
  "falsy v \<longleftrightarrow> v = None \<or> v = Some []"

text \<open>
  The world outside the program: the remote model behind each stage, given the request
  the stage sends and the index of the loop iteration (for an image also the index
  \<open>j\<close> of its prompt); the clock read by \<open>Date.now()\<close>; whether
  \<open>fs.writeFileSync\<close> throws; base64 decoding by \<open>Buffer.from\<close>; and the WAV
  encoder.
\<close>

record wav_data =
  sampleRate :: number
  channelData :: "real list list"

record env =
  generar_cuento :: "jsstring \<Rightarrow> nat \<Rightarrow> outcome"
  generar_prompts :: "jsstring \<Rightarrow> nat \<Rightarrow> outcome"
  generar_imagen :: "json \<Rightarrow> nat \<Rightarrow> nat \<Rightarrow> outcome"
  generar_audio :: "jsstring \<Rightarrow> nat \<Rightarrow> outcome"
  date_now :: "nat \<Rightarrow> nat \<Rightarrow> nat"
  write_error :: "nat \<Rightarrow> nat \<Rightarrow> js_error option"
  base64 :: "jsstring \<Rightarrow> 8 word list"
  wav_encode :: "wav_data \<Rightarrow> js_error + 8 word list"
  audio_now :: nat
  audio_write_error :: "js_error option"

section \<open>The story loop of \<open>crearCuentoEImagenesSecuencia\<close>\<close>

definition cuentoPrompt :: "jsstring \<Rightarrow> jsstring \<Rightarrow> jsstring \<Rightarrow> jsstring" where
  "cuentoPrompt personaje lugar objeto =
     js ''Crea un cuento corto y original de aproximadamente 200 palabras. La historia debe incluir a un ''
     @ personaje @ js '' en '' @ lugar @ js '' con un '' @ objeto
     @ js ''. El cuento debe tener un inicio, un desarrollo y un final.''"

text \<open>
  Lines 73 to 88: the loop returns the value of \<open>cuento\<close> at its end and the events so
  far. An error thrown by the call, or by reading the text of the first candidate, is
  caught: warning, sleep, next iteration. A response without candidates: warning,
  sleep, next iteration. Otherwise \<open>cuento\<close> is the text and the loop is left, also
  when the first part has no text or an empty one: the check after the loop (line 89)
  then throws with no further attempt.
\<close>

function cuento_loop ::
  "(nat \<Rightarrow> outcome) \<Rightarrow> nat \<Rightarrow> event list \<Rightarrow> jsstring option \<times> event list"
where
  "cuento_loop gen i tr =
     (if i < maxAttempts then
        (case gen i of
           Throws e \<Rightarrow>
             cuento_loop gen (Suc i) (tr @ [Attempt i, Warn (i + 1) (Fallido_error e), Sleep i])
         | Returns cuentoResponse \<Rightarrow>
             if has_candidates cuentoResponse then
               (case first_text cuentoResponse of
                  Inl e \<Rightarrow>
                    cuento_loop gen (Suc i)
                      (tr @ [Attempt i, Warn (i + 1) (Fallido_error e), Sleep i])
                | Inr cuento \<Rightarrow> (cuento, tr @ [Attempt i]))
             else
               cuento_loop gen (Suc i) (tr @ [Attempt i, Warn (i + 1) Fallido_cuento, Sleep i]))
      else (None, tr))"
  by pat_completeness auto
termination
  by (relation "measure (\<lambda>(gen, i, tr). maxAttempts - i)") auto

declare cuento_loop.simps [simp del]

section \<open>\<open>generarPromptsSecuenciales\<close>\<close>

definition promptText :: "jsstring \<Rightarrow> int \<Rightarrow> jsstring" where
  "promptText story numPrompts =
     [0x0A] @ js ''        Given the following story, identify '' @ String_of_int numPrompts
     @ js '' key scenes that would make good illustrations.'' @ [0x0A]
     @ js ''        For each scene, provide a detailed, single-sentence image prompt.'' @ [0x0A]
     @ js ''        The response should be a JSON array of strings. Each string is a prompt.'' @ [0x0A]
     @ js ''        Story: \"'' @ story @ js ''\"'' @ [0x0A]
     @ js ''    ''"

text \<open>
  \<open>prompts.slice(0, numPrompts)\<close>: a negative end counts from the end of the array.
\<close>

definition slice0 :: "'a list \<Rightarrow> int \<Rightarrow> 'a list" where
  "slice0 xs fin =
     (let len = int (length xs);
          k = (if fin < 0 then max (len + fin) 0 else min fin len)
      in take (nat k) xs)"

text \<open>
  Lines 171 and 172, inside the inner \<open>try\<close>: a missing text makes
  \<open>jsonText.substring\<close> throw a \<open>TypeError\<close>, a text that is not JSON makes
  \<open>JSON.parse\<close> throw a \<open>SyntaxError\<close>.
\<close>

definition cleanedText :: "jsstring \<Rightarrow> jsstring" where
  "cleanedText jsonText = trim (replace_fences (substring_from jsonText (indexOf jsonText 0x5B)))"

definition parse_prompts :: "jsstring option \<Rightarrow> js_error + json" where
  "parse_prompts jsonText =
     (case jsonText of
        None \<Rightarrow> Inl TypeError
      | Some t \<Rightarrow>
          (case JSON_parse (cleanedText t) of
             None \<Rightarrow> Inl SyntaxError
           | Some prompts \<Rightarrow> Inr prompts))"

text \<open>
  Lines 163 to 187: \<open>Some\<close> is the \<open>return\<close> from inside the loop, \<open>None\<close> its
  end. An error of the inner \<open>try\<close> is caught by the inner \<open>catch\<close>, which warns and
  does not sleep; a parsed value that is not a non-empty array falls out of the
  \<open>if\<close> with neither warning nor sleep.
\<close>

function prompts_loop ::
  "(nat \<Rightarrow> outcome) \<Rightarrow> int \<Rightarrow> nat \<Rightarrow> event list \<Rightarrow> json list option \<times> event list"
where
  "prompts_loop gen numPrompts i tr =
     (if i < maxAttempts then
        (case gen i of
           Throws e \<Rightarrow>
             prompts_loop gen numPrompts (Suc i)
               (tr @ [Attempt i, Warn (i + 1) (Fallido_error e), Sleep i])
         | Returns response \<Rightarrow>
             if has_candidates response then
               (case first_text response of
                  Inl e \<Rightarrow>
                    prompts_loop gen numPrompts (Suc i)
                      (tr @ [Attempt i, Warn (i + 1) (Fallido_error e), Sleep i])
                | Inr jsonText \<Rightarrow>
                    (case parse_prompts jsonText of
                       Inl jsonError \<Rightarrow>
                         prompts_loop gen numPrompts (Suc i)
                           (tr @ [Attempt i, Warn (i + 1) Fallido_parsear])
                     | Inr (JArray (p # ps)) \<Rightarrow>
                         (Some (slice0 (p # ps) numPrompts), tr @ [Attempt i])
                     | Inr _ \<Rightarrow> prompts_loop gen numPrompts (Suc i) (tr @ [Attempt i])))
             else
               prompts_loop gen numPrompts (Suc i)
                 (tr @ [Attempt i, Warn (i + 1) Fallido_prompts, Sleep i]))
      else (None, tr))"
  by pat_completeness auto
termination
  by (relation "measure (\<lambda>(gen, numPrompts, i, tr). maxAttempts - i)") auto

declare prompts_loop.simps [simp del]

definition fallback_prompts :: "jsstring \<Rightarrow> json list" where
  "fallback_prompts story =
     [JString (js ''Render 3D de alta calidad, que muestre la escena principal del cuento: ''
               @ substring story 0 50 @ js ''...''),
      JString (js ''Render 3D de alta calidad, que muestre una escena de acci'' @ [0xF3]
               @ js ''n del cuento: '' @ substring story 50 100 @ js ''...''),
      JString (js ''Render 3D de alta calidad, que muestre el final feliz del cuento: ''
               @ substring story 100 150 @ js ''...'')]"

definition generarPromptsSecuenciales ::
  "env \<Rightarrow> jsstring \<Rightarrow> int \<Rightarrow> event list \<Rightarrow> json list \<times> event list"
where
  "generarPromptsSecuenciales w story numPrompts tr =
     (case prompts_loop (generar_prompts w (promptText story numPrompts)) numPrompts 0 tr of
        (Some prompts, tr') \<Rightarrow> (prompts, tr')
      | (None, tr') \<Rightarrow> (fallback_prompts story, tr' @ [Warn_fallback]))"

section \<open>The image loops of \<open>crearCuentoEImagenesSecuencia\<close>\<close>

text \<open>
  \<^verbatim>\<open>imageResponse.candidates[0].content.parts.find(p => p.inlineData)?.inlineData.data\<close>:
  the data of the first part that has inline data, \<open>undefined\<close> when there is none.
\<close>

definition image_data :: "response option \<Rightarrow> js_error + jsstring option" where
  "image_data r =
     (case first_parts r of
        Inl e \<Rightarrow> Inl e
      | Inr ps \<Rightarrow>
          (case find (\<lambda>p. inlineData p \<noteq> None) ps of
             None \<Rightarrow> Inr None
           | Some p \<Rightarrow> Inr (map_option data (inlineData p))))"

definition image_fileName :: "nat \<Rightarrow> nat \<Rightarrow> jsstring" where
  "image_fileName now j =
     js ''cuento_ilustrado_'' @ digits_of now @ js ''_'' @ digits_of (j + 1) @ js ''.png''"

definition image_url :: "jsstring \<Rightarrow> jsstring" where
  "image_url fileName = js ''/images/'' @ fileName"

text \<open>
  Lines 102 to 137, for the prompt of index \<open>j\<close>: the inner loop, which ends with the
  list \<open>imageUrls\<close> as it then is. Everything from the call to the write is inside the
  \<open>try\<close>, so an error of \<open>fs.writeFileSync\<close> is a failed attempt too.
\<close>

function imagen_loop ::
  "env \<Rightarrow> json \<Rightarrow> nat \<Rightarrow> nat \<Rightarrow> jsstring list \<Rightarrow> event list
     \<Rightarrow> jsstring list \<times> event list"
where
  "imagen_loop w imagePrompt j i imageUrls tr =
     (if i < maxAttempts then
        (case generar_imagen w imagePrompt j i of
           Throws e \<Rightarrow>
             imagen_loop w imagePrompt j (Suc i) imageUrls
               (tr @ [Attempt i, Warn (i + 1) (Fallido_error e), Sleep i])
         | Returns imageResponse \<Rightarrow>
             if has_candidates imageResponse then
               (case image_data imageResponse of
                  Inl e \<Rightarrow>
                    imagen_loop w imagePrompt j (Suc i) imageUrls
                      (tr @ [Attempt i, Warn (i + 1) (Fallido_error e), Sleep i])
                | Inr imageData \<Rightarrow>
                    if \<not> falsy imageData then
                      (case write_error w j i of
                         Some e \<Rightarrow>
                           imagen_loop w imagePrompt j (Suc i) imageUrls
                             (tr @ [Attempt i, Warn (i + 1) (Fallido_error e), Sleep i])
                       | None \<Rightarrow>
                           (imageUrls @ [image_url (image_fileName (date_now w j i) j)],
                            tr @ [Attempt i, Write_file (image_fileName (date_now w j i) j)]))
                    else
                      imagen_loop w imagePrompt j (Suc i) imageUrls
                        (tr @ [Attempt i, Warn (i + 1) Fallido_sin_datos, Sleep i]))
             else
               imagen_loop w imagePrompt j (Suc i) imageUrls
                 (tr @ [Attempt i, Warn (i + 1) Fallido_imagen, Sleep i]))
      else (imageUrls, tr))"
  by pat_completeness auto
termination
  by (relation "measure (\<lambda>(w, imagePrompt, j, i, imageUrls, tr). maxAttempts - i)") auto

declare imagen_loop.simps [simp del]

text \<open>
  Lines 100 to 138: \<^verbatim>\<open>for (const [j, imagePrompt] of imagePrompts.entries())\<close>.
\<close>

fun imagenes ::
  "env \<Rightarrow> json list \<Rightarrow> nat \<Rightarrow> jsstring list \<Rightarrow> event list \<Rightarrow> jsstring list \<times> event list"
where
  "imagenes w [] j imageUrls tr = (imageUrls, tr)"
| "imagenes w (imagePrompt # rest) j imageUrls tr =
     (case imagen_loop w imagePrompt j 0 imageUrls tr of
        (imageUrls', tr') \<Rightarrow> imagenes w rest (Suc j) imageUrls' tr')"

text \<open>
  Lines 99 to 144, the illustration stage: the loops over the prompts, then the check
  that throws when no image was made.
\<close>

definition error_sin_imagenes :: js_error where
  "error_sin_imagenes =
     Error (js ''No se pudo generar ninguna imagen despu'' @ [0xE9]
            @ js ''s de varios intentos.'')"

definition error_sin_cuento :: js_error where
  "error_sin_cuento =
     Error (js ''No se pudo generar el cuento despu'' @ [0xE9] @ js ''s de varios intentos.'')"

definition ilustrar ::
  "env \<Rightarrow> json list \<Rightarrow> event list \<Rightarrow> (js_error + jsstring list) \<times> event list"
where
  "ilustrar w imagePrompts tr =
     (case imagenes w imagePrompts 0 [] tr of
        (imageUrls, tr') \<Rightarrow>
          if length imageUrls = 0 then (Inl error_sin_imagenes, tr')
          else (Inr imageUrls, tr'))"

section \<open>\<open>crearCuentoEImagenesSecuencia\<close>\<close>

text \<open>
  Lines 60 to 145: the story loop and its check, the scene prompts, the illustration
  stage. Both routes pass \<open>numImages\<close>, so its default of 3 is never used.
\<close>

definition crearCuentoEImagenesSecuencia ::
  "env \<Rightarrow> jsstring \<Rightarrow> jsstring \<Rightarrow> jsstring \<Rightarrow> int
     \<Rightarrow> (js_error + jsstring \<times> jsstring list) \<times> event list"
where
  "crearCuentoEImagenesSecuencia w personaje lugar objeto numImages =
     (case cuento_loop (generar_cuento w (cuentoPrompt personaje lugar objeto)) 0 [] of
        (cuento, tr1) \<Rightarrow>
          if falsy cuento then (Inl error_sin_cuento, tr1)
          else
            (case generarPromptsSecuenciales w (the cuento) numImages tr1 of
               (imagePrompts, tr2) \<Rightarrow>
                 (case ilustrar w imagePrompts tr2 of
                    (Inl e, tr3) \<Rightarrow> (Inl e, tr3)
                  | (Inr imageUrls, tr3) \<Rightarrow> (Inr (the cuento, imageUrls), tr3))))"

section \<open>\<open>generarAudioDeCuento\<close>\<close>

text \<open>
  Lines 211 to 245: the loop ends with the variable \<open>response\<close> as it then is, which
  is the last response any call returned (\<open>None\<close> when none did, or when the last one
  had no response).
\<close>

function audio_loop ::
  "(nat \<Rightarrow> outcome) \<Rightarrow> nat \<Rightarrow> response option \<Rightarrow> event list
     \<Rightarrow> response option \<times> event list"
where
  "audio_loop gen i response tr =
     (if i < maxAttempts then
        (case gen i of
           Throws e \<Rightarrow>
             audio_loop gen (Suc i) response
               (tr @ [Attempt i, Warn (i + 1) (Fallido_error e), Sleep i])
         | Returns r \<Rightarrow>
             if has_candidates r then (r, tr @ [Attempt i])
             else audio_loop gen (Suc i) r (tr @ [Attempt i, Warn (i + 1) Fallido_audio, Sleep i]))
      else (response, tr))"
  by pat_completeness auto
termination
  by (relation "measure (\<lambda>(gen, i, response, tr). maxAttempts - i)") auto

declare audio_loop.simps [simp del]

text \<open>
  \<^verbatim>\<open>mimeType.match(/rate=(\d+)/)\<close>: the digits after the leftmost \<open>rate=\<close> that a
  digit follows; \<open>None\<close> when there is no match (reading \<open>[1]\<close> of \<open>null\<close> then
  throws).
\<close>

fun match_rate :: "jsstring \<Rightarrow> jsstring option" where
  "match_rate [] = None"
| "match_rate (c # r) =
     (if startsWith (c # r) (js ''rate='') \<and> takeWhile is_digit (drop 5 (c # r)) \<noteq> []
      then Some (takeWhile is_digit (drop 5 (c # r)))
      else match_rate r)"

text \<open>
  \<^verbatim>\<open>parseInt(digits, 10)\<close> of a non-empty string of digits: the number nearest to
  its decimal value, \<open>Infinity\<close> when that is \<open>2^1024\<close> or more. (ECMAScript
  lets an implementation read the digits after the 20th as zeros; here all are read,
  which is the same number for a string of at most 20 digits.)
\<close>

definition decimal :: "jsstring \<Rightarrow> nat" where
  "decimal ds = foldl (\<lambda>n d. 10 * n + unat (d - 0x30)) 0 ds"

definition parseInt :: "jsstring \<Rightarrow> number" where
  "parseInt ds =
     (if round53 (decimal ds) < 2 ^ 1024 then Number (round53 (decimal ds)) else Infinity)"

text \<open>
  \<^verbatim>\<open>new Int16Array(pcmData.buffer, pcmData.byteOffset, pcmData.byteLength / 2)\<close>: the
  bytes two by two, the low byte first (the byte order of the platforms Node runs on); a
  last odd byte is left out, as the length is truncated to a whole number.
\<close>

fun int16_array :: "8 word list \<Rightarrow> 16 word list" where
  "int16_array (lo # hi # r) = (ucast lo + 256 * ucast hi) # int16_array r"
| "int16_array r = []"

text \<open>
  Lines 261 to 271. A sample of 16 bits divided by 32768 is a multiple of
  \<open>2\<^sup>-\<^sup>1\<^sup>5\<close> of at most 16 significant bits, which a 32-bit float holds
  exactly: the samples are real numbers.
\<close>

definition wavData :: "jsstring \<Rightarrow> 8 word list \<Rightarrow> js_error + wav_data" where
  "wavData mime pcmData =
     (case match_rate mime of
        None \<Rightarrow> Inl TypeError
      | Some digits \<Rightarrow>
          Inr \<lparr> sampleRate = parseInt digits,
                channelData = [map (\<lambda>sample. real_of_int (sint sample) / 32768)
                                  (int16_array pcmData)] \<rparr>)"

definition error_sin_candidatos :: js_error where
  "error_sin_candidatos =
     Error (js ''La respuesta de la API de audio no contiene candidatos despu'' @ [0xE9]
            @ js ''s de varios intentos.'')"

definition error_sin_audio :: js_error where
  "error_sin_audio = Error (js ''La respuesta de la API no contiene datos de audio.'')"

definition is_audio_part :: "part \<Rightarrow> bool" where
  "is_audio_part p =
     (case inlineData p of
        None \<Rightarrow> False
      | Some d \<Rightarrow> startsWith (mimeType d) (js ''audio/''))"

definition audio_fileName :: "nat \<Rightarrow> jsstring" where
  "audio_fileName now = js ''cuento_audio_'' @ digits_of now @ js ''.wav''"

definition generarAudioDeCuento ::
  "env \<Rightarrow> jsstring \<Rightarrow> event list \<Rightarrow> (js_error + jsstring) \<times> event list"
where
  "generarAudioDeCuento w cuento tr =
     (case audio_loop (generar_audio w cuento) 0 None tr of
        (response, tr') \<Rightarrow>
          (case response of
             None \<Rightarrow> (Inl TypeError, tr')
           | Some resp \<Rightarrow>
               if \<not> has_candidates response then (Inl error_sin_candidatos, tr')
               else
                 (case first_parts response of
                    Inl e \<Rightarrow> (Inl e, tr')
                  | Inr ps \<Rightarrow>
                      (case find is_audio_part ps of
                         None \<Rightarrow> (Inl error_sin_audio, tr')
                       | Some audioDataPart \<Rightarrow>
                           (case wavData (mimeType (the (inlineData audioDataPart)))
                                   (base64 w (data (the (inlineData audioDataPart)))) of
                              Inl e \<Rightarrow> (Inl e, tr')
                            | Inr wav \<Rightarrow>
                                (case wav_encode w wav of
                                   Inl e \<Rightarrow> (Inl e, tr')
                                 | Inr wavBuffer \<Rightarrow>
                                     (case audio_write_error w of
                                        Some e \<Rightarrow> (Inl e, tr')
                                      | None \<Rightarrow>
                                          (Inr (js ''/audio/'' @ audio_fileName (audio_now w)),
                                           tr' @ [Write_audio (audio_fileName (audio_now w)) wavBuffer]))))))))"

section \<open>The route \<open>GET /create-story\<close>\<close>

text \<open>
  The query parameters are strings or missing; \<open>req.get('host')\<close> is a string or
  \<open>undefined\<close>, which the template prints as such. A response is its status and its
  JSON body; \<open>res.json\<close> without \<open>res.status\<close> answers 200.
\<close>

record request =
  personaje :: "jsstring option"
  lugar :: "jsstring option"
  objeto :: "jsstring option"
  protocol :: jsstring
  host :: "jsstring option"

datatype http_response = Http_response (status: nat) (body: json)

definition host_text :: "request \<Rightarrow> jsstring" where
  "host_text req = (case host req of None \<Rightarrow> js ''undefined'' | Some h \<Rightarrow> h)"

definition create_story :: "env \<Rightarrow> request \<Rightarrow> http_response" where
  "create_story w req =
     (if falsy (personaje req) \<or> falsy (lugar req) \<or> falsy (objeto req) then
        Http_response 400
          (JObject [(js ''error'',
             JString (js ''Faltan par'' @ [0xE1]
               @ js ''metros: personaje, lugar y objeto son obligatorios.''))])
      else
        (case fst (crearCuentoEImagenesSecuencia w (the (personaje req)) (the (lugar req))
                     (the (objeto req)) 1) of
           Inr (cuento, imageUrls) \<Rightarrow>
             Http_response 200
               (JObject [(js ''cuento'', JString cuento),
                         (js ''imageUrls'',
                          JArray (map (\<lambda>imageUrl. JString (protocol req @ js ''://''
                                         @ host_text req @ imageUrl)) imageUrls))])
         | Inl error \<Rightarrow>
             Http_response 500
               (JObject [(js ''error'',
                  JString (js ''Hubo un error al generar el cuento y la imagen.''))])))"

section \<open>Vocabulary of the properties\<close>

text \<open>
  The loop indices of the remote calls and of the backoff waits of a run, in the order
  they happened.
\<close>

definition attempts_of :: "event list \<Rightarrow> nat list" where
  "attempts_of tr = concat (map (\<lambda>e. case e of Attempt i \<Rightarrow> [i] | _ \<Rightarrow> []) tr)"

definition sleeps_of :: "event list \<Rightarrow> nat list" where
  "sleeps_of tr = concat (map (\<lambda>e. case e of Sleep i \<Rightarrow> [i] | _ \<Rightarrow> []) tr)"

text \<open>
  The events of failed attempts \<open>ks\<close> that each warn (with cause \<open>c k\<close>) and then
  sleep, and of failed attempts that warn of a parse failure and do not sleep.
\<close>

definition rounds :: "(nat \<Rightarrow> warning) \<Rightarrow> nat list \<Rightarrow> event list" where
  "rounds c ks = concat (map (\<lambda>k. [Attempt k, Warn (k + 1) (c k), Sleep k]) ks)"

definition parse_rounds :: "nat list \<Rightarrow> event list" where
  "parse_rounds ks = concat (map (\<lambda>k. [Attempt k, Warn (k + 1) Fallido_parsear]) ks)"

text \<open>
  An attempt of the story loop or of the scene-prompt loop fails by its response when
  the call throws, the response has no candidates, or reading the text of the first
  candidate throws.
\<close>

definition response_fails :: "outcome \<Rightarrow> bool" where
  "response_fails out =
     (case out of
        Throws e \<Rightarrow> True
      | Returns r \<Rightarrow> \<not> has_candidates r \<or> isl (first_text r))"

text \<open>
  The non-empty array a scene-prompt attempt yields, if any; an attempt whose text was
  read but did not parse; and the text the attempt returned, when it got that far.
\<close>

definition prompts_of :: "outcome \<Rightarrow> json list option" where
  "prompts_of out =
     (case out of
        Throws e \<Rightarrow> None
      | Returns r \<Rightarrow>
          if has_candidates r then
            (case first_text r of
               Inl e \<Rightarrow> None
             | Inr t \<Rightarrow>
                 (case parse_prompts t of
                    Inr (JArray (p # ps)) \<Rightarrow> Some (p # ps)
                  | _ \<Rightarrow> None))
          else None)"

definition parse_fails :: "outcome \<Rightarrow> bool" where
  "parse_fails out =
     (case out of
        Throws e \<Rightarrow> False
      | Returns r \<Rightarrow>
          has_candidates r \<and>
          (case first_text r of
             Inl e \<Rightarrow> False
           | Inr t \<Rightarrow> isl (parse_prompts t)))"

definition text_of :: "outcome \<Rightarrow> jsstring option" where
  "text_of out =
     (case out of
        Throws e \<Rightarrow> None
      | Returns r \<Rightarrow>
          if has_candidates r then
            (case first_text r of
               Inl e \<Rightarrow> None
             | Inr t \<Rightarrow> t)
          else None)"

text \<open>
  Attempt \<open>i\<close> for the prompt of index \<open>j\<close> succeeds when the call returns candidates,
  a part of the first one has non-empty inline data, and the file is written. The first
  such attempt, if any, is the one that makes the image.
\<close>

definition imagen_ok :: "env \<Rightarrow> json \<Rightarrow> nat \<Rightarrow> nat \<Rightarrow> bool" where
  "imagen_ok w imagePrompt j i =
     (case generar_imagen w imagePrompt j i of
        Throws e \<Rightarrow> False
      | Returns r \<Rightarrow>
          has_candidates r \<and>
          (case image_data r of
             Inl e \<Rightarrow> False
           | Inr d \<Rightarrow> \<not> falsy d \<and> write_error w j i = None))"

definition primer_exito :: "env \<Rightarrow> json \<Rightarrow> nat \<Rightarrow> nat option" where
  "primer_exito w imagePrompt j = find (imagen_ok w imagePrompt j) [0..<maxAttempts]"

definition urls_of :: "env \<Rightarrow> nat \<Rightarrow> json list \<Rightarrow> jsstring list" where
  "urls_of w j0 imagePrompts =
     concat (map (\<lambda>(j, imagePrompt).
                    case primer_exito w imagePrompt j of
                      None \<Rightarrow> []
                    | Some i \<Rightarrow> [image_url (image_fileName (date_now w j i) j)])
                 (enumerate j0 imagePrompts))"

definition audio_fails :: "outcome \<Rightarrow> bool" where
  "audio_fails out =
     (case out of
        Throws e \<Rightarrow> True
      | Returns r \<Rightarrow> \<not> has_candidates r)"

section \<open>Sample worlds\<close>

text \<open>
  Concrete responses and worlds, on which the properties below are run: a response of
  one candidate whose one part is a text; a world in which every remote call throws; the
  text of a JSON array between code fences; a world whose scene-prompt model always
  answers with a text that is not JSON; and one whose scene-prompt model answers first
  with such a text, then with an empty array, then with the fenced array.
\<close>

definition respuesta_texto :: "jsstring \<Rightarrow> outcome" where
  "respuesta_texto t = Returns (Some (Response (Some [Candidate (Some [Part (Some t) None])])))"

definition mundo_caido :: env where
  "mundo_caido =
     \<lparr> generar_cuento = (\<lambda>prompt i. Throws TypeError),
       generar_prompts = (\<lambda>prompt i. Throws TypeError),
       generar_imagen = (\<lambda>prompt j i. Throws TypeError),
       generar_audio = (\<lambda>cuento i. Throws TypeError),
       date_now = (\<lambda>j i. 0),
       write_error = (\<lambda>j i. None),
       base64 = (\<lambda>s. []),
       wav_encode = (\<lambda>wav. Inr []),
       audio_now = 0,
       audio_write_error = None \<rparr>"

definition fenced :: jsstring where
  "fenced = fence @ js ''json'' @ [0x0A] @ js ''[\"a\",\"b\",\"c\"]'' @ [0x0A] @ fence"

definition mundo_sin_json :: env where
  "mundo_sin_json = mundo_caido \<lparr> generar_prompts := (\<lambda>prompt i. respuesta_texto (js ''no json'')) \<rparr>"

definition mundo_reintento :: env where
  "mundo_reintento = mundo_caido \<lparr> generar_prompts :=
     (\<lambda>prompt i. if i = 0 then respuesta_texto (js ''no json'')
                 else if i = 1 then respuesta_texto (js ''[]'')
                 else respuesta_texto fenced) \<rparr>"

text \<open>
  A response with an inline image after a text part, and a world whose image model has
  no image for the second scene (index 1) and, for the others, throws twice and then
  answers with one.
\<close>

definition respuesta_imagen :: "jsstring \<Rightarrow> outcome" where
  "respuesta_imagen d =
     Returns (Some (Response (Some [Candidate (Some
       [Part (Some (js ''ok'')) None, Part None (Some (InlineData (js ''image/png'') d))])])))"

definition mundo_escena_2 :: env where
  "mundo_escena_2 = mundo_caido \<lparr> generar_imagen :=
       (\<lambda>prompt j i. if j = 1 then respuesta_texto (js ''no'')
                     else if i < 2 then Throws TypeError
                     else respuesta_imagen (js ''iVBORw0KGgo='')),
     date_now := (\<lambda>j i. 1700 + j) \<rparr>"

text \<open>
  A world in which every stage succeeds at once, and a complete request.
\<close>

definition mundo_feliz :: env where
  "mundo_feliz = mundo_caido \<lparr>
     generar_cuento := (\<lambda>prompt i. respuesta_texto (js ''Erase una vez un gato.'')),
     generar_prompts := (\<lambda>prompt i. respuesta_texto fenced),
     generar_imagen := (\<lambda>prompt j i. respuesta_imagen (js ''iVBORw0KGgo='')),
     date_now := (\<lambda>j i. 1700 + j) \<rparr>"

definition peticion :: request where
  "peticion = \<lparr> personaje = Some (js ''gato''), lugar = Some (js ''Lima''),
                 objeto = Some (js ''mapa''), protocol = js ''http'',
                 host = Some (js ''localhost:3000'') \<rparr>"

text \<open>
  A story response whose candidate has a part without text, and a world whose story
  model always answers with it while every other stage would succeed at once.
\<close>

definition respuesta_sin_texto :: outcome where
  "respuesta_sin_texto = Returns (Some (Response (Some [Candidate (Some [Part None None])])))"

definition mundo_sin_texto :: env where
  "mundo_sin_texto = mundo_feliz \<lparr> generar_cuento := (\<lambda>prompt i. respuesta_sin_texto) \<rparr>"

text \<open>
  A response with an audio part after a text part, and an encoder that accepts the
  expected WAV data only. In the first world the speech model answers at once with the
  two samples 0 and 16384 at \<open>rate=24000\<close>; in the second it throws, then answers
  without candidates, then answers with the samples -1 and -32768 and one odd byte at
  \<open>rate=8000\<close>.
\<close>

definition respuesta_audio :: "jsstring \<Rightarrow> jsstring \<Rightarrow> outcome" where
  "respuesta_audio mime d =
     Returns (Some (Response (Some [Candidate (Some
       [Part (Some (js ''ok'')) None, Part None (Some (InlineData mime d))])])))"

definition codificador :: "wav_data \<Rightarrow> wav_data \<Rightarrow> js_error + 8 word list" where
  "codificador esperado wav =
     (if wav = esperado then Inr [0x52, 0x49, 0x46, 0x46] else Inl (Error (js ''otro audio'')))"

definition mundo_audio :: env where
  "mundo_audio = mundo_caido \<lparr>
     generar_audio := (\<lambda>cuento i. respuesta_audio (js ''audio/L16;codec=pcm;rate=24000'')
                                     (js ''AAAAQA=='')),
     base64 := (\<lambda>s. if s = js ''AAAAQA=='' then [0x00, 0x00, 0x00, 0x40] else []),
     wav_encode := codificador \<lparr> sampleRate = Number 24000, channelData = [[0, 1 / 2]] \<rparr>,
     audio_now := 1700 \<rparr>"

definition mundo_audio_lento :: env where
  "mundo_audio_lento = mundo_caido \<lparr>
     generar_audio := (\<lambda>cuento i. if i = 0 then Throws TypeError
                                  else if i = 1 then Returns (Some (Response None))
                                  else respuesta_audio (js ''audio/L16;rate=8000'')
                                         (js ''//8AgAc='')),
     base64 := (\<lambda>s. if s = js ''//8AgAc='' then [0xFF, 0xFF, 0x00, 0x80, 0x07] else []),
     wav_encode := codificador \<lparr> sampleRate = Number 8000,
                                  channelData = [[- 1 / 32768, - 1]] \<rparr>,
     audio_now := 1701 \<rparr>"

section \<open>Properties of the backoff delay\<close>

subsection \<open>Rounding to a double\<close>

lemma bitlen_le: "n < 2 ^ k \<Longrightarrow> bitlen n \<le> k"
proof (induction k arbitrary: n)
  case 0
  then show ?case by (subst bitlen.simps) simp
next
  case (Suc k)
  show ?case
  proof (cases "n = 0")
    case True
    then show ?thesis by (subst bitlen.simps) simp
  next
    case False
    from Suc.prems have "n div 2 < 2 ^ k" by simp
    then have "bitlen (n div 2) \<le> k" by (rule Suc.IH)
    with False show ?thesis by (subst bitlen.simps) simp
  qed
qed

lemma round53_exact: "n < 2 ^ 53 \<Longrightarrow> round53 n = n"
  using bitlen_le [of n 53] by (simp add: round53_def)



lemma bitlen_eq: "2 ^ k \<le> n \<Longrightarrow> n < 2 ^ Suc k \<Longrightarrow> bitlen n = Suc k"
proof (induction k arbitrary: n)
  case 0
  then have "n = 1" by simp
  then show ?case by (simp add: bitlen.simps)
next
  case (Suc k)
  from Suc.prems have "2 ^ k \<le> n div 2" "n div 2 < 2 ^ Suc k" by simp_all
  then have "bitlen (n div 2) = Suc k" by (rule Suc.IH)
  moreover from Suc.prems have "n \<noteq> 0" by auto
  ultimately show ?case by (subst bitlen.simps) simp
qed





lemma floor_draw:
  "\<lfloor>draw_value d * 1000\<rfloor> = int (significand d * 1000 div 2 ^ exponent d)"
proof -
  have "draw_value d * 1000 = real (significand d * 1000) / real (2 ^ exponent d)"
    by (simp add: draw_value_def)
  then show ?thesis by (simp only: floor_divide_of_nat_eq)
qed



subsection \<open>The delay\<close>

text \<open>
  The product is rounded: at the draw \<open>0.29\<close> (the double
  \<open>5224175567749775 / 2^54\<close>) the exact product is just below 290 and its floor is
  289, the product of the doubles is 290 and the delay of attempt 0 is 1290. Likewise at
  the draw \<open>526921156402348 / 2^52\<close>, whose delay is 1117.
\<close>

lemma sleep_delay_rounds_up:
  "is_draw \<lparr> significand = 5224175567749775, exponent = 54 \<rparr>
 \<and> \<lfloor>draw_value \<lparr> significand = 5224175567749775, exponent = 54 \<rparr> * 1000\<rfloor> = 289
 \<and> jitter \<lparr> significand = 5224175567749775, exponent = 54 \<rparr> = 290
 \<and> sleep_delay 0 \<lparr> significand = 5224175567749775, exponent = 54 \<rparr> = 1290
 \<and> is_draw \<lparr> significand = 526921156402348, exponent = 52 \<rparr>
 \<and> \<lfloor>draw_value \<lparr> significand = 526921156402348, exponent = 52 \<rparr> * 1000\<rfloor> = 116
 \<and> sleep_delay 0 \<lparr> significand = 526921156402348, exponent = 52 \<rparr> = 1117"
  by (simp add: is_draw_def floor_draw sleep_delay_def jitter_def round53_def bitlen.simps)















section \<open>The JSON parser consumes its input\<close>

text \<open>
  Every parser that succeeds returns a rest shorter than its input, so the length tests
  in \<open>parse_elements\<close> and \<open>parse_members\<close> never fail: both functions satisfy
  their equations without the tests.
\<close>

lemma json_digits_length: "json_digits s = Some (ds, r) \<Longrightarrow> length r \<le> length s"
  by (auto simp: json_digits_def length_dropWhile_le split: if_splits)

lemma json_int_length: "json_int s = Some (x, r) \<Longrightarrow> length r < length s"
  by (auto simp: json_int_def length_dropWhile_le le_imp_less_Suc split: list.splits if_splits)

lemma json_frac_length: "json_frac s = Some (x, r) \<Longrightarrow> length r \<le> length s"
  by (auto simp: json_frac_def split: list.splits if_splits option.splits
        dest!: json_digits_length)

lemma json_exp_length: "json_exp s = Some (x, r) \<Longrightarrow> length r \<le> length s"
  by (auto simp: json_exp_def split: list.splits if_splits option.splits prod.splits
        dest!: json_digits_length)

lemma json_number_length:
  assumes "json_number s = Some (x, r)"
  shows "length r < length s"
proof -
  define r0 where "r0 = (case s of [] \<Rightarrow> s | c # r \<Rightarrow> if c = 0x2D then r else s)"
  have r0: "length r0 \<le> length s"
    by (simp add: r0_def split: list.splits)
  from assms have "\<exists>ipart r1 fpart r2 epart.
      json_int r0 = Some (ipart, r1) \<and> json_frac r1 = Some (fpart, r2)
      \<and> json_exp r2 = Some (epart, r)"
    by (auto simp: json_number_def r0_def split: list.splits if_splits option.splits)
  then obtain ipart r1 fpart r2 epart where
    i: "json_int r0 = Some (ipart, r1)"
    and f: "json_frac r1 = Some (fpart, r2)" and e: "json_exp r2 = Some (epart, r)"
    by blast
  from json_int_length [OF i] json_frac_length [OF f] json_exp_length [OF e] r0
  show ?thesis by simp
qed

lemma json_literal_length:
  assumes "json_literal word v s = Some (x, r)" and "word \<noteq> []"
  shows "length r < length s"
proof -
  from assms(1) have t: "take (length word) s = word" and r: "r = drop (length word) s"
    by (auto simp: json_literal_def split: if_splits)
  from t have "length word \<le> length s"
    by (metis length_take min.cobounded1)
  with assms(2) r show ?thesis by (cases word) simp_all
qed


lemma parse_consumes:
  "\<forall>v r. parse_value s = Some (v, r) \<longrightarrow> length r < length s"
  "\<forall>vs r. parse_elements s1 = Some (vs, r) \<longrightarrow> length r < length s1"
  "\<forall>ms r. parse_members s2 = Some (ms, r) \<longrightarrow> length r < length s2"
proof (induction s and s1 and s2 rule: parse_value_parse_elements_parse_members.induct)
  case (1 s)
  show ?case
  proof (intro allI impI)
    fix v r
    assume pv: "parse_value s = Some (v, r)"
    show "length r < length s"
    proof (cases s)
      case Nil
      with pv show ?thesis by (subst (asm) parse_value.simps) simp
    next
      case (Cons c t)
      consider (str) "c = 0x22" | (arr) "c = 0x5B" | (obj) "c = 0x7B"
        | (other) "c \<noteq> 0x22" "c \<noteq> 0x5B" "c \<noteq> 0x7B"
        by blast
      then show ?thesis
      proof cases
        case str
        with pv Cons show ?thesis
          by (subst (asm) parse_value.simps)
             (auto split: option.splits dest!: json_string_body_length)
      next
        case arr
        show ?thesis
        proof (cases "skip_ws t")
          case Nil
          with pv Cons arr show ?thesis by (subst (asm) parse_value.simps) simp
        next
          case inner: (Cons d t')
          show ?thesis
          proof (cases "d = 0x5D")
            case True
            with pv Cons arr inner have "r = t'"
              by (subst (asm) parse_value.simps) simp
            with inner skip_ws_length [of t] Cons show ?thesis by simp
          next
            case False
            with pv Cons arr inner obtain vs where "parse_elements (skip_ws t) = Some (vs, r)"
              by (subst (asm) parse_value.simps) (auto split: option.splits)
            with "1.IH"(1) [OF Cons _ _ inner False] arr
            have "length r < length (skip_ws t)" by simp
            with skip_ws_length [of t] Cons show ?thesis by simp
          qed
        qed
      next
        case obj
        show ?thesis
        proof (cases "skip_ws t")
          case Nil
          with pv Cons obj show ?thesis by (subst (asm) parse_value.simps) simp
        next
          case inner: (Cons d t')
          show ?thesis
          proof (cases "d = 0x7D")
            case True
            with pv Cons obj inner have "r = t'"
              by (subst (asm) parse_value.simps) simp
            with inner skip_ws_length [of t] Cons show ?thesis by simp
          next
            case False
            with pv Cons obj inner obtain ms where "parse_members (skip_ws t) = Some (ms, r)"
              by (subst (asm) parse_value.simps) (auto split: option.splits)
            with "1.IH"(2) [OF Cons _ _ _ inner False] obj
            have "length r < length (skip_ws t)" by simp
            with skip_ws_length [of t] Cons show ?thesis by simp
          qed
        qed
      next
        case other
        have "js ''true'' \<noteq> []" "js ''false'' \<noteq> []" "js ''null'' \<noteq> []"
          by (simp_all add: js_def)
        with pv Cons other show ?thesis
          by (subst (asm) parse_value.simps)
             (auto split: if_splits option.splits
                   dest: json_literal_length json_number_length)
      qed
    qed
  qed
next
  case (2 s)
  show ?case
  proof (intro allI impI)
    fix vs r
    assume pe: "parse_elements s = Some (vs, r)"
    then obtain v r1 where pv: "parse_value s = Some (v, r1)" and lt: "length r1 < length s"
      by (subst (asm) parse_elements.simps) (auto split: option.splits if_splits)
    from pe pv lt obtain c r' where ws: "skip_ws r1 = c # r'"
      by (subst (asm) parse_elements.simps) (auto split: list.splits)
    show "length r < length s"
    proof (cases "c = 0x2C")
      case True
      with pe pv lt ws obtain vs' where "parse_elements (skip_ws r') = Some (vs', r)"
        by (subst (asm) parse_elements.simps) (auto split: option.splits)
      with "2.IH"(2) [OF pv refl lt ws True]
      have "length r < length (skip_ws r')" by simp
      with skip_ws_length [of r'] skip_ws_length [of r1] ws lt show ?thesis by simp
    next
      case False
      with pe pv lt ws have "r = r'"
        by (subst (asm) parse_elements.simps) (auto split: if_splits)
      with skip_ws_length [of r1] ws lt show ?thesis by simp
    qed
  qed
next
  case (3 s)
  show ?case
  proof (intro allI impI)
    fix ms r
    assume pm: "parse_members s = Some (ms, r)"
    then obtain q t where s: "s = q # t" and q: "\<not> q \<noteq> 0x22"
      by (subst (asm) parse_members.simps) (auto split: list.splits if_splits)
    from pm s q obtain k r1 where body: "json_string_body t = Some (k, r1)"
      by (subst (asm) parse_members.simps) (auto split: option.splits)
    from pm s q body obtain col r2 where ws1: "skip_ws r1 = col # r2" and col: "\<not> col \<noteq> 0x3A"
      by (subst (asm) parse_members.simps) (auto split: list.splits if_splits)
    from pm s q body ws1 col obtain v r3 where pv: "parse_value (skip_ws r2) = Some (v, r3)"
      and lt: "length r3 < length (skip_ws r2)"
      by (subst (asm) parse_members.simps) (auto split: option.splits if_splits)
    from pm s q body ws1 col pv lt obtain c r4 where ws3: "skip_ws r3 = c # r4"
      by (subst (asm) parse_members.simps) (auto split: list.splits)
    have len: "length r3 < length s"
      using lt skip_ws_length [of r2] skip_ws_length [of r1] ws1
        json_string_body_length [OF body] s by simp
    show "length r < length s"
    proof (cases "c = 0x2C")
      case True
      with pm s q body ws1 col pv lt ws3 obtain ms' where
        "parse_members (skip_ws r4) = Some (ms', r)"
        by (subst (asm) parse_members.simps) (auto split: option.splits)
      with "3.IH"(2) [OF s q body refl ws1 col pv refl lt ws3 True]
      have "length r < length (skip_ws r4)" by simp
      with skip_ws_length [of r4] skip_ws_length [of r3] ws3 len show ?thesis by simp
    next
      case False
      with pm s q body ws1 col pv lt ws3 have "r = r4"
        by (subst (asm) parse_members.simps) (auto split: if_splits)
      with skip_ws_length [of r3] ws3 len show ?thesis by simp
    qed
  qed
qed


lemma parse_value_consumes: "parse_value s = Some (v, r) \<Longrightarrow> length r < length s"
  using parse_consumes(1) by blast

lemma parse_elements_unguarded:
  "parse_elements s =
     (case parse_value s of
        None \<Rightarrow> None
      | Some (v, r) \<Rightarrow>
          (case skip_ws r of
             [] \<Rightarrow> None
           | c # r' \<Rightarrow>
               if c = 0x2C then
                 (case parse_elements (skip_ws r') of
                    None \<Rightarrow> None
                  | Some (vs, rest) \<Rightarrow> Some (v # vs, rest))
               else if c = 0x5D then Some ([v], r')
               else None))"
  by (subst parse_elements.simps)
     (simp add: parse_value_consumes split: option.splits prod.splits)

lemma parse_members_unguarded:
  "parse_members s =
     (case s of
        [] \<Rightarrow> None
      | q # r \<Rightarrow>
          if q \<noteq> 0x22 then None
          else
            (case json_string_body r of
               None \<Rightarrow> None
             | Some (k, r1) \<Rightarrow>
                 (case skip_ws r1 of
                    [] \<Rightarrow> None
                  | col # r2 \<Rightarrow>
                      if col \<noteq> 0x3A then None
                      else
                        (case parse_value (skip_ws r2) of
                           None \<Rightarrow> None
                         | Some (v, r3) \<Rightarrow>
                             (case skip_ws r3 of
                                [] \<Rightarrow> None
                              | c # r4 \<Rightarrow>
                                  if c = 0x2C then
                                    (case parse_members (skip_ws r4) of
                                       None \<Rightarrow> None
                                     | Some (ms, rest) \<Rightarrow> Some ((k, v) # ms, rest))
                                  else if c = 0x7D then Some ([(k, v)], r4)
                                  else None)))))"
  by (subst parse_members.simps)
     (simp add: parse_value_consumes split: list.splits option.splits prod.splits)

section \<open>The retry loops, one iteration at a time\<close>

lemma attempts_of_append: "attempts_of (a @ b) = attempts_of a @ attempts_of b"
  by (simp add: attempts_of_def)

lemma sleeps_of_append: "sleeps_of (a @ b) = sleeps_of a @ sleeps_of b"
  by (simp add: sleeps_of_def)

lemma attempts_of_simps:
  "attempts_of [] = []"
  "attempts_of (Attempt i # tr) = i # attempts_of tr"
  "attempts_of (Warn n c # tr) = attempts_of tr"
  "attempts_of (Sleep i # tr) = attempts_of tr"
  "attempts_of (Warn_fallback # tr) = attempts_of tr"
  "attempts_of (Write_file f # tr) = attempts_of tr"
  "attempts_of (Write_audio f b # tr) = attempts_of tr"
  by (simp_all add: attempts_of_def)

lemma sleeps_of_simps:
  "sleeps_of [] = []"
  "sleeps_of (Attempt i # tr) = sleeps_of tr"
  "sleeps_of (Warn n c # tr) = sleeps_of tr"
  "sleeps_of (Sleep i # tr) = i # sleeps_of tr"
  "sleeps_of (Warn_fallback # tr) = sleeps_of tr"
  "sleeps_of (Write_file f # tr) = sleeps_of tr"
  "sleeps_of (Write_audio f b # tr) = sleeps_of tr"
  by (simp_all add: sleeps_of_def)

lemma rounds_simps:
  "rounds c [] = []"
  "rounds c (k # ks) = Attempt k # Warn (k + 1) (c k) # Sleep k # rounds c ks"
  by (simp_all add: rounds_def)

lemma rounds_cong: "(\<And>k. k \<in> set ks \<Longrightarrow> c k = c' k) \<Longrightarrow> rounds c ks = rounds c' ks"
  by (induction ks) (simp_all add: rounds_simps)

lemma attempts_of_rounds: "attempts_of (rounds c ks) = ks"
  by (induction ks) (simp_all add: rounds_simps attempts_of_simps)

lemma sleeps_of_rounds: "sleeps_of (rounds c ks) = ks"
  by (induction ks) (simp_all add: rounds_simps sleeps_of_simps)

lemma upt_five: "[0..<maxAttempts] = [0, 1, 2, 3, 4]"
  by (simp add: maxAttempts_def upt_rec)

lemma rounds_upd:
  assumes "i < n"
  shows "rounds (c(i := x)) [i..<n] =
           Attempt i # Warn (i + 1) x # Sleep i # rounds c [Suc i..<n]"
proof -
  have "rounds (c(i := x)) [Suc i..<n] = rounds c [Suc i..<n]"
    by (rule rounds_cong) simp
  with assms show ?thesis
    by (simp add: upt_conv_Cons rounds_simps)
qed

lemma parse_rounds_simps:
  "parse_rounds [] = []"
  "parse_rounds (k # ks) = Attempt k # Warn (k + 1) Fallido_parsear # parse_rounds ks"
  by (simp_all add: parse_rounds_def)

lemma attempts_of_parse_rounds: "attempts_of (parse_rounds ks) = ks"
  by (induction ks) (simp_all add: parse_rounds_simps attempts_of_simps)

lemma sleeps_of_parse_rounds: "sleeps_of (parse_rounds ks) = []"
  by (induction ks) (simp_all add: parse_rounds_simps sleeps_of_simps)

subsection \<open>The story loop\<close>

lemma cuento_loop_end: "\<not> i < maxAttempts \<Longrightarrow> cuento_loop gen i tr = (None, tr)"
  by (subst cuento_loop.simps) simp

lemma cuento_loop_fail:
  assumes "i < maxAttempts" and "response_fails (gen i)"
  shows "\<exists>c. cuento_loop gen i tr =
              cuento_loop gen (Suc i) (tr @ [Attempt i, Warn (i + 1) c, Sleep i])"
  using assms
  by (subst cuento_loop.simps)
     (auto simp: response_fails_def split: outcome.splits sum.splits)

lemma cuento_loop_success:
  assumes "i < maxAttempts" and "gen i = Returns r" and "has_candidates r"
    and "first_text r = Inr t"
  shows "cuento_loop gen i tr = (t, tr @ [Attempt i])"
  using assms by (subst cuento_loop.simps) simp

lemma upt_maxAttempts: "i < maxAttempts \<Longrightarrow> [i..<maxAttempts] = i # [Suc i..<maxAttempts]"
  by (simp add: upt_conv_Cons)

lemma cuento_loop_all_fail:
  assumes "\<forall>k. i \<le> k \<and> k < maxAttempts \<longrightarrow> response_fails (gen k)"
  shows "\<exists>c. cuento_loop gen i tr = (None, tr @ rounds c [i..<maxAttempts])"
  using assms
proof (induction "maxAttempts - i" arbitrary: i tr)
  case 0
  then have "\<not> i < maxAttempts" by simp
  then show ?case by (simp add: cuento_loop_end rounds_simps)
next
  case (Suc n)
  then have lt: "i < maxAttempts" by simp
  with Suc.prems have "response_fails (gen i)" by simp
  from cuento_loop_fail [of i gen tr] lt this obtain x where
    step: "cuento_loop gen i tr = cuento_loop gen (Suc i) (tr @ [Attempt i, Warn (i + 1) x, Sleep i])"
    by blast
  have "n = maxAttempts - Suc i" using Suc.hyps(2) by simp
  moreover have "\<forall>k. Suc i \<le> k \<and> k < maxAttempts \<longrightarrow> response_fails (gen k)"
    using Suc.prems by simp
  ultimately obtain c where
    "cuento_loop gen (Suc i) (tr @ [Attempt i, Warn (i + 1) x, Sleep i]) =
       (None, (tr @ [Attempt i, Warn (i + 1) x, Sleep i]) @ rounds c [Suc i..<maxAttempts])"
    using Suc.hyps(1) [of "Suc i" "tr @ [Attempt i, Warn (i + 1) x, Sleep i]"] by blast
  then have "cuento_loop gen i tr = (None, tr @ rounds (c(i := x)) [i..<maxAttempts])"
    by (simp add: step rounds_upd [OF lt])
  then show ?case by blast
qed

subsection \<open>The scene-prompt loop\<close>

lemma prompts_loop_end: "\<not> i < maxAttempts \<Longrightarrow> prompts_loop gen n i tr = (None, tr)"
  by (subst prompts_loop.simps) simp

lemma prompts_loop_success:
  assumes "i < maxAttempts" and "prompts_of (gen i) = Some ps"
  shows "prompts_loop gen n i tr = (Some (slice0 ps n), tr @ [Attempt i])"
  using assms
  by (subst prompts_loop.simps)
     (auto simp: prompts_of_def split: outcome.splits sum.splits if_splits json.splits list.splits)

lemma prompts_loop_fail:
  assumes "i < maxAttempts" and "response_fails (gen i)"
  shows "\<exists>c. prompts_loop gen n i tr =
              prompts_loop gen n (Suc i) (tr @ [Attempt i, Warn (i + 1) c, Sleep i])"
  using assms
  by (subst prompts_loop.simps)
     (auto simp: response_fails_def split: outcome.splits sum.splits)

lemma prompts_loop_parse_fails:
  assumes "i < maxAttempts" and "parse_fails (gen i)"
  shows "prompts_loop gen n i tr =
           prompts_loop gen n (Suc i) (tr @ [Attempt i, Warn (i + 1) Fallido_parsear])"
  using assms
  by (subst prompts_loop.simps)
     (auto simp: parse_fails_def split: outcome.splits sum.splits)

lemma prompts_loop_no_array:
  assumes "i < maxAttempts" and "prompts_of (gen i) = None"
    and "\<not> response_fails (gen i)" and "\<not> parse_fails (gen i)"
  shows "prompts_loop gen n i tr = prompts_loop gen n (Suc i) (tr @ [Attempt i])"
  using assms
  by (subst prompts_loop.simps)
     (auto simp: prompts_of_def response_fails_def parse_fails_def
           split: outcome.splits sum.splits json.splits list.splits)

lemma prompts_loop_skip:
  assumes "i < maxAttempts" and "prompts_of (gen i) = None"
  shows "\<exists>evs. prompts_loop gen n i tr = prompts_loop gen n (Suc i) (tr @ Attempt i # evs)
             \<and> attempts_of evs = []"
proof -
  consider "response_fails (gen i)" | "parse_fails (gen i)"
    | "\<not> response_fails (gen i)" "\<not> parse_fails (gen i)"
    by blast
  then show ?thesis
  proof cases
    case 1
    from prompts_loop_fail [of i gen n tr] assms(1) 1 obtain c where
      "prompts_loop gen n i tr =
         prompts_loop gen n (Suc i) (tr @ [Attempt i, Warn (i + 1) c, Sleep i])"
      by blast
    then have "prompts_loop gen n i tr =
         prompts_loop gen n (Suc i) (tr @ Attempt i # [Warn (i + 1) c, Sleep i])
       \<and> attempts_of [Warn (i + 1) c, Sleep i] = []"
      by (simp add: attempts_of_simps)
    then show ?thesis by blast
  next
    case 2
    from prompts_loop_parse_fails [of i gen n tr] assms(1) 2
    have "prompts_loop gen n i tr =
         prompts_loop gen n (Suc i) (tr @ Attempt i # [Warn (i + 1) Fallido_parsear])
       \<and> attempts_of [Warn (i + 1) Fallido_parsear] = []"
      by (simp add: attempts_of_simps)
    then show ?thesis by blast
  next
    case 3
    from prompts_loop_no_array [of i gen n tr] assms 3
    have "prompts_loop gen n i tr = prompts_loop gen n (Suc i) (tr @ Attempt i # [])
       \<and> attempts_of [] = []"
      by (simp add: attempts_of_simps)
    then show ?thesis by blast
  qed
qed

lemma prompts_loop_all_none:
  assumes "\<forall>k. i \<le> k \<and> k < maxAttempts \<longrightarrow> prompts_of (gen k) = None"
  shows "fst (prompts_loop gen n i tr) = None
       \<and> attempts_of (snd (prompts_loop gen n i tr)) = attempts_of tr @ [i..<maxAttempts]"
  using assms
proof (induction "maxAttempts - i" arbitrary: i tr)
  case 0
  then have "\<not> i < maxAttempts" by simp
  then show ?case by (simp add: prompts_loop_end)
next
  case (Suc m)
  then have lt: "i < maxAttempts" by simp
  with Suc.prems have "prompts_of (gen i) = None" by simp
  from prompts_loop_skip [of i gen n tr] lt this obtain evs where
    step: "prompts_loop gen n i tr = prompts_loop gen n (Suc i) (tr @ Attempt i # evs)"
    and evs: "attempts_of evs = []"
    by blast
  have "m = maxAttempts - Suc i" using Suc.hyps(2) by simp
  moreover have "\<forall>k. Suc i \<le> k \<and> k < maxAttempts \<longrightarrow> prompts_of (gen k) = None"
    using Suc.prems by simp
  ultimately show ?case
    using Suc.hyps(1) [of "Suc i" "tr @ Attempt i # evs"] evs
    by (simp add: step attempts_of_append attempts_of_simps upt_maxAttempts [OF lt])
qed

lemma prompts_loop_all_fail:
  assumes "\<forall>k. i \<le> k \<and> k < maxAttempts \<longrightarrow> response_fails (gen k)"
  shows "\<exists>c. prompts_loop gen n i tr = (None, tr @ rounds c [i..<maxAttempts])"
  using assms
proof (induction "maxAttempts - i" arbitrary: i tr)
  case 0
  then have "\<not> i < maxAttempts" by simp
  then show ?case by (simp add: prompts_loop_end rounds_simps)
next
  case (Suc m)
  then have lt: "i < maxAttempts" by simp
  with Suc.prems have "response_fails (gen i)" by simp
  from prompts_loop_fail [of i gen n tr] lt this obtain x where
    step: "prompts_loop gen n i tr =
             prompts_loop gen n (Suc i) (tr @ [Attempt i, Warn (i + 1) x, Sleep i])"
    by blast
  have "m = maxAttempts - Suc i" using Suc.hyps(2) by simp
  moreover have "\<forall>k. Suc i \<le> k \<and> k < maxAttempts \<longrightarrow> response_fails (gen k)"
    using Suc.prems by simp
  ultimately obtain c where
    "prompts_loop gen n (Suc i) (tr @ [Attempt i, Warn (i + 1) x, Sleep i]) =
       (None, (tr @ [Attempt i, Warn (i + 1) x, Sleep i]) @ rounds c [Suc i..<maxAttempts])"
    using Suc.hyps(1) [of "Suc i" "tr @ [Attempt i, Warn (i + 1) x, Sleep i]"] by blast
  then have "prompts_loop gen n i tr = (None, tr @ rounds (c(i := x)) [i..<maxAttempts])"
    by (simp add: step rounds_upd [OF lt])
  then show ?case by blast
qed

lemma prompts_loop_all_parse_fail:
  assumes "\<forall>k. i \<le> k \<and> k < maxAttempts \<longrightarrow> parse_fails (gen k)"
  shows "prompts_loop gen n i tr = (None, tr @ parse_rounds [i..<maxAttempts])"
  using assms
proof (induction "maxAttempts - i" arbitrary: i tr)
  case 0
  then have "\<not> i < maxAttempts" by simp
  then show ?case by (simp add: prompts_loop_end parse_rounds_simps)
next
  case (Suc m)
  then have lt: "i < maxAttempts" by simp
  with Suc.prems have "parse_fails (gen i)" by simp
  from prompts_loop_parse_fails [of i gen n tr] lt this have
    step: "prompts_loop gen n i tr =
             prompts_loop gen n (Suc i) (tr @ [Attempt i, Warn (i + 1) Fallido_parsear])"
    by blast
  have "m = maxAttempts - Suc i" using Suc.hyps(2) by simp
  moreover have "\<forall>k. Suc i \<le> k \<and> k < maxAttempts \<longrightarrow> parse_fails (gen k)"
    using Suc.prems by simp
  ultimately show ?case
    using Suc.hyps(1) [of "Suc i" "tr @ [Attempt i, Warn (i + 1) Fallido_parsear]"]
    by (simp add: step parse_rounds_simps upt_maxAttempts [OF lt])
qed

lemma prompts_loop_first_success:
  assumes "k < maxAttempts" and "i \<le> k" and "prompts_of (gen k) = Some ps"
    and "\<forall>m. i \<le> m \<and> m < k \<longrightarrow> prompts_of (gen m) = None"
  shows "fst (prompts_loop gen n i tr) = Some (slice0 ps n)
       \<and> attempts_of (snd (prompts_loop gen n i tr)) = attempts_of tr @ [i..<Suc k]"
  using assms
proof (induction "k - i" arbitrary: i tr)
  case 0
  then have "i = k" by simp
  with 0 show ?case
    by (simp add: prompts_loop_success attempts_of_append attempts_of_simps)
next
  case (Suc d)
  then have lt: "i < k" by simp
  with Suc.prems have none: "prompts_of (gen i) = None" and lt': "i < maxAttempts" by simp_all
  from prompts_loop_skip [of i gen n tr] lt' none obtain evs where
    step: "prompts_loop gen n i tr = prompts_loop gen n (Suc i) (tr @ Attempt i # evs)"
    and evs: "attempts_of evs = []"
    by blast
  have "d = k - Suc i" using Suc.hyps(2) by simp
  moreover have "\<forall>m. Suc i \<le> m \<and> m < k \<longrightarrow> prompts_of (gen m) = None"
    using Suc.prems by simp
  moreover have "Suc i \<le> k" using lt by simp
  moreover have "[i..<Suc k] = i # [Suc i..<Suc k]"
    using lt by (simp add: upt_conv_Cons)
  ultimately show ?case
    using Suc.hyps(1) [of "Suc i" "tr @ Attempt i # evs"] Suc.prems(1,3) evs
    by (simp add: step attempts_of_append attempts_of_simps)
qed


subsection \<open>The image loops\<close>

lemma imagen_loop_end:
  "\<not> i < maxAttempts \<Longrightarrow> imagen_loop w p j i urls tr = (urls, tr)"
  by (subst imagen_loop.simps) simp

lemma imagen_loop_success:
  assumes "i < maxAttempts" and "imagen_ok w p j i"
  shows "imagen_loop w p j i urls tr =
           (urls @ [image_url (image_fileName (date_now w j i) j)],
            tr @ [Attempt i, Write_file (image_fileName (date_now w j i) j)])"
  using assms
  by (subst imagen_loop.simps)
     (auto simp: imagen_ok_def split: outcome.splits sum.splits option.splits)

lemma imagen_loop_fail:
  assumes "i < maxAttempts" and "\<not> imagen_ok w p j i"
  shows "\<exists>c. imagen_loop w p j i urls tr =
              imagen_loop w p j (Suc i) urls (tr @ [Attempt i, Warn (i + 1) c, Sleep i])"
  using assms
  by (subst imagen_loop.simps)
     (auto simp: imagen_ok_def split: outcome.splits sum.splits option.splits)

lemma imagen_loop_urls:
  "fst (imagen_loop w p j i urls tr) =
     urls @ (case find (imagen_ok w p j) [i..<maxAttempts] of
               None \<Rightarrow> []
             | Some k \<Rightarrow> [image_url (image_fileName (date_now w j k) j)])"
proof (induction "maxAttempts - i" arbitrary: i tr)
  case 0
  then have "\<not> i < maxAttempts" by simp
  then show ?case by (simp add: imagen_loop_end)
next
  case (Suc m)
  then have lt: "i < maxAttempts" by simp
  show ?case
  proof (cases "imagen_ok w p j i")
    case True
    then show ?thesis
      by (simp add: imagen_loop_success [OF lt True] upt_maxAttempts [OF lt])
  next
    case False
    from imagen_loop_fail [OF lt False, of urls tr] obtain c where
      step: "imagen_loop w p j i urls tr =
               imagen_loop w p j (Suc i) urls (tr @ [Attempt i, Warn (i + 1) c, Sleep i])"
      by blast
    have "m = maxAttempts - Suc i" using Suc.hyps(2) by simp
    then show ?thesis
      using Suc.hyps(1) [of "Suc i" "tr @ [Attempt i, Warn (i + 1) c, Sleep i]"] False
      by (simp add: step upt_maxAttempts [OF lt])
  qed
qed

lemma imagen_loop_all_fail:
  assumes "\<forall>k. i \<le> k \<and> k < maxAttempts \<longrightarrow> \<not> imagen_ok w p j k"
  shows "\<exists>c. imagen_loop w p j i urls tr = (urls, tr @ rounds c [i..<maxAttempts])"
  using assms
proof (induction "maxAttempts - i" arbitrary: i tr)
  case 0
  then have "\<not> i < maxAttempts" by simp
  then show ?case by (simp add: imagen_loop_end rounds_simps)
next
  case (Suc m)
  then have lt: "i < maxAttempts" by simp
  with Suc.prems have "\<not> imagen_ok w p j i" by simp
  from imagen_loop_fail [OF lt this, of urls tr] obtain x where
    step: "imagen_loop w p j i urls tr =
             imagen_loop w p j (Suc i) urls (tr @ [Attempt i, Warn (i + 1) x, Sleep i])"
    by blast
  have "m = maxAttempts - Suc i" using Suc.hyps(2) by simp
  moreover have "\<forall>k. Suc i \<le> k \<and> k < maxAttempts \<longrightarrow> \<not> imagen_ok w p j k"
    using Suc.prems by simp
  ultimately obtain c where
    "imagen_loop w p j (Suc i) urls (tr @ [Attempt i, Warn (i + 1) x, Sleep i]) =
       (urls, (tr @ [Attempt i, Warn (i + 1) x, Sleep i]) @ rounds c [Suc i..<maxAttempts])"
    using Suc.hyps(1) [of "Suc i" "tr @ [Attempt i, Warn (i + 1) x, Sleep i]"] by blast
  then have "imagen_loop w p j i urls tr = (urls, tr @ rounds (c(i := x)) [i..<maxAttempts])"
    by (simp add: step rounds_upd [OF lt])
  then show ?case by blast
qed

lemma imagenes_urls:
  "fst (imagenes w ps j urls tr) = urls @ urls_of w j ps"
proof (induction ps arbitrary: j urls tr)
  case Nil
  then show ?case by (simp add: urls_of_def)
next
  case (Cons p ps)
  obtain urls' tr' where loop: "imagen_loop w p j 0 urls tr = (urls', tr')"
    by (cases "imagen_loop w p j 0 urls tr")
  have "urls' = fst (imagen_loop w p j 0 urls tr)" by (simp add: loop)
  then have urls': "urls' = urls @ (case primer_exito w p j of
               None \<Rightarrow> []
             | Some k \<Rightarrow> [image_url (image_fileName (date_now w j k) j)])"
    by (simp add: imagen_loop_urls primer_exito_def)
  have "urls_of w j (p # ps) =
          (case primer_exito w p j of
             None \<Rightarrow> []
           | Some k \<Rightarrow> [image_url (image_fileName (date_now w j k) j)]) @ urls_of w (Suc j) ps"
    by (simp add: urls_of_def)
  then show ?case
    using Cons.IH [of "Suc j" urls' tr'] by (simp add: loop urls')
qed

subsection \<open>The audio loop\<close>

lemma audio_loop_end: "\<not> i < maxAttempts \<Longrightarrow> audio_loop gen i r tr = (r, tr)"
  by (subst audio_loop.simps) simp

lemma audio_loop_success:
  assumes "i < maxAttempts" and "gen i = Returns r'" and "has_candidates r'"
  shows "audio_loop gen i r tr = (r', tr @ [Attempt i])"
  using assms by (subst audio_loop.simps) simp

lemma audio_loop_fail:
  assumes "i < maxAttempts" and "audio_fails (gen i)" and "\<not> has_candidates r"
  shows "\<exists>c r'. audio_loop gen i r tr =
                 audio_loop gen (Suc i) r' (tr @ [Attempt i, Warn (i + 1) c, Sleep i])
               \<and> \<not> has_candidates r'"
  using assms
  by (subst audio_loop.simps)
     (auto simp: audio_fails_def split: outcome.splits)

lemma audio_loop_all_fail:
  assumes "\<forall>k. i \<le> k \<and> k < maxAttempts \<longrightarrow> audio_fails (gen k)"
    and "\<not> has_candidates r"
  shows "\<exists>c r'. audio_loop gen i r tr = (r', tr @ rounds c [i..<maxAttempts])
               \<and> \<not> has_candidates r'"
  using assms
proof (induction "maxAttempts - i" arbitrary: i r tr)
  case 0
  then have "\<not> i < maxAttempts" by simp
  with 0 show ?case by (simp add: audio_loop_end rounds_simps)
next
  case (Suc m)
  then have lt: "i < maxAttempts" by simp
  with Suc.prems have "audio_fails (gen i)" by simp
  from audio_loop_fail [of i gen r tr] lt this Suc.prems(2) obtain x r1 where
    step: "audio_loop gen i r tr =
             audio_loop gen (Suc i) r1 (tr @ [Attempt i, Warn (i + 1) x, Sleep i])"
    and r1: "\<not> has_candidates r1"
    by blast
  have "m = maxAttempts - Suc i" using Suc.hyps(2) by simp
  moreover have "\<forall>k. Suc i \<le> k \<and> k < maxAttempts \<longrightarrow> audio_fails (gen k)"
    using Suc.prems by simp
  ultimately obtain c r' where
    "audio_loop gen (Suc i) r1 (tr @ [Attempt i, Warn (i + 1) x, Sleep i]) =
       (r', (tr @ [Attempt i, Warn (i + 1) x, Sleep i]) @ rounds c [Suc i..<maxAttempts])"
    and "\<not> has_candidates r'"
    using Suc.hyps(1) [of "Suc i" r1 "tr @ [Attempt i, Warn (i + 1) x, Sleep i]"] r1 by blast
  then have "audio_loop gen i r tr = (r', tr @ rounds (c(i := x)) [i..<maxAttempts])
           \<and> \<not> has_candidates r'"
    by (simp add: step rounds_upd [OF lt])
  then show ?case by blast
qed

section \<open>Exhaustion of the retry loops\<close>

lemma mundo_caido_simps:
  "generar_cuento mundo_caido prompt i = Throws TypeError"
  "generar_prompts mundo_caido prompt i = Throws TypeError"
  "generar_imagen mundo_caido ip j i = Throws TypeError"
  "generar_audio mundo_caido cu i = Throws TypeError"
  by (simp_all add: mundo_caido_def)


text \<open>
  In each of the four retry loops, when every one of the five attempts fails the test
  that the loop makes (the call throws, an error is thrown while the response is read,
  or the response fails the test of the stage), the loop makes exactly the attempts 0,
  1, 2, 3 and 4 and ends exhausted: \<open>cuento\<close> stays \<open>null\<close> and
  \<open>crearCuentoEImagenesSecuencia\<close> throws; the scene-prompt loop returns nothing;
  the image loop leaves \<open>imageUrls\<close> as it was; the audio loop ends with a response
  without candidates (or none), on which \<open>generarAudioDeCuento\<close> throws.
\<close>

theorem exhaustion_after_five_attempts:
  "((\<forall>i<maxAttempts. response_fails (generar_cuento w (cuentoPrompt pe lu ob) i)) \<longrightarrow>
       fst (cuento_loop (generar_cuento w (cuentoPrompt pe lu ob)) 0 []) = None
     \<and> fst (crearCuentoEImagenesSecuencia w pe lu ob n) = Inl error_sin_cuento
     \<and> attempts_of (snd (crearCuentoEImagenesSecuencia w pe lu ob n)) = [0, 1, 2, 3, 4])
 \<and> ((\<forall>i<maxAttempts. prompts_of (gp i) = None) \<longrightarrow>
       fst (prompts_loop gp np 0 tr) = None
     \<and> attempts_of (snd (prompts_loop gp np 0 tr)) = attempts_of tr @ [0, 1, 2, 3, 4])
 \<and> ((\<forall>i<maxAttempts. \<not> imagen_ok w ip j i) \<longrightarrow>
       fst (imagen_loop w ip j 0 urls tr) = urls
     \<and> attempts_of (snd (imagen_loop w ip j 0 urls tr)) = attempts_of tr @ [0, 1, 2, 3, 4])
 \<and> ((\<forall>i<maxAttempts. audio_fails (generar_audio w cu i)) \<longrightarrow>
       \<not> has_candidates (fst (audio_loop (generar_audio w cu) 0 None tr))
     \<and> fst (generarAudioDeCuento w cu tr) \<in> {Inl TypeError, Inl error_sin_candidatos}
     \<and> attempts_of (snd (generarAudioDeCuento w cu tr)) = attempts_of tr @ [0, 1, 2, 3, 4])"
proof (intro conjI impI)
  assume "\<forall>i<maxAttempts. response_fails (generar_cuento w (cuentoPrompt pe lu ob) i)"
  then obtain c where
    loop: "cuento_loop (generar_cuento w (cuentoPrompt pe lu ob)) 0 [] =
             (None, [] @ rounds c [0..<maxAttempts])"
    using cuento_loop_all_fail [of 0 "generar_cuento w (cuentoPrompt pe lu ob)" "[]"] by auto
  show "fst (cuento_loop (generar_cuento w (cuentoPrompt pe lu ob)) 0 []) = None"
    by (simp add: loop)
  show "fst (crearCuentoEImagenesSecuencia w pe lu ob n) = Inl error_sin_cuento"
    by (simp add: crearCuentoEImagenesSecuencia_def loop falsy_def)
  show "attempts_of (snd (crearCuentoEImagenesSecuencia w pe lu ob n)) = [0, 1, 2, 3, 4]"
    by (simp add: crearCuentoEImagenesSecuencia_def loop falsy_def attempts_of_rounds upt_five)
next
  assume "\<forall>i<maxAttempts. prompts_of (gp i) = None"
  then have "fst (prompts_loop gp np 0 tr) = None
     \<and> attempts_of (snd (prompts_loop gp np 0 tr)) = attempts_of tr @ [0..<maxAttempts]"
    using prompts_loop_all_none [of 0 gp np tr] by auto
  then show "fst (prompts_loop gp np 0 tr) = None"
    and "attempts_of (snd (prompts_loop gp np 0 tr)) = attempts_of tr @ [0, 1, 2, 3, 4]"
    by (simp_all add: upt_five)
next
  assume "\<forall>i<maxAttempts. \<not> imagen_ok w ip j i"
  then obtain c where
    loop: "imagen_loop w ip j 0 urls tr = (urls, tr @ rounds c [0..<maxAttempts])"
    using imagen_loop_all_fail [of 0 w ip j urls tr] by auto
  show "fst (imagen_loop w ip j 0 urls tr) = urls"
    by (simp add: loop)
  show "attempts_of (snd (imagen_loop w ip j 0 urls tr)) = attempts_of tr @ [0, 1, 2, 3, 4]"
    by (simp add: loop attempts_of_append attempts_of_rounds upt_five)
next
  assume "\<forall>i<maxAttempts. audio_fails (generar_audio w cu i)"
  moreover have "\<not> has_candidates None" by (simp add: has_candidates_def)
  ultimately obtain c r' where
    loop: "audio_loop (generar_audio w cu) 0 None tr = (r', tr @ rounds c [0..<maxAttempts])"
    and r': "\<not> has_candidates r'"
    using audio_loop_all_fail [of 0 "generar_audio w cu" None tr] by auto
  show "\<not> has_candidates (fst (audio_loop (generar_audio w cu) 0 None tr))"
    by (simp add: loop r')
  show "fst (generarAudioDeCuento w cu tr) \<in> {Inl TypeError, Inl error_sin_candidatos}"
    using r' by (simp add: generarAudioDeCuento_def loop split: option.splits)
  show "attempts_of (snd (generarAudioDeCuento w cu tr)) = attempts_of tr @ [0, 1, 2, 3, 4]"
    using r'
    by (simp add: generarAudioDeCuento_def loop attempts_of_append attempts_of_rounds upt_five
          split: option.splits)
qed

theorem exhaustion_after_five_attempts_witness:
  "fst (crearCuentoEImagenesSecuencia mundo_caido (js ''gato'') (js ''Lima'') (js ''mapa'') 1)
     = Inl error_sin_cuento
 \<and> attempts_of (snd (crearCuentoEImagenesSecuencia mundo_caido (js ''gato'') (js ''Lima'')
      (js ''mapa'') 1)) = [0, 1, 2, 3, 4]
 \<and> fst (prompts_loop (\<lambda>i. Throws TypeError) 1 0 []) = None
 \<and> attempts_of (snd (prompts_loop (\<lambda>i. Throws TypeError) 1 0 [])) = [0, 1, 2, 3, 4]
 \<and> fst (imagen_loop mundo_caido JNull 0 0 [] []) = []
 \<and> attempts_of (snd (imagen_loop mundo_caido JNull 0 0 [] [])) = [0, 1, 2, 3, 4]
 \<and> fst (generarAudioDeCuento mundo_caido (js ''Fin'') [])
       \<in> {Inl TypeError, Inl error_sin_candidatos}
 \<and> attempts_of (snd (generarAudioDeCuento mundo_caido (js ''Fin'') [])) = [0, 1, 2, 3, 4]"
proof -
  have h1: "\<forall>i<maxAttempts. response_fails
              (generar_cuento mundo_caido (cuentoPrompt (js ''gato'') (js ''Lima'') (js ''mapa'')) i)"
    by (simp add: mundo_caido_simps response_fails_def)
  have h2: "\<forall>i<maxAttempts. prompts_of ((\<lambda>i. Throws TypeError) i) = None"
    by (simp add: prompts_of_def)
  have h3: "\<forall>i<maxAttempts. \<not> imagen_ok mundo_caido JNull 0 i"
    by (simp add: imagen_ok_def mundo_caido_simps)
  have h4: "\<forall>i<maxAttempts. audio_fails (generar_audio mundo_caido (js ''Fin'') i)"
    by (simp add: audio_fails_def mundo_caido_simps)
  show ?thesis
    using exhaustion_after_five_attempts [of mundo_caido "js ''gato''" "js ''Lima''" "js ''mapa''"
        1 "\<lambda>i. Throws TypeError" 1 "[]" JNull 0 "[]" "js ''Fin''"] h1 h2 h3 h4
    by (simp add: attempts_of_simps)
qed

text \<open>
  C1 fails on the story loop. A story response that has a candidate but no text (or an
  empty text) fails the success predicate of the story stage on every attempt; the test
  of line 77 looks at the candidates only, so the first attempt leaves the loop with no
  story, and line 89 throws its error of exhaustion (its message says after several
  attempts) after one attempt instead of five. (The image loop does test its payload, line 116, and
  retries when it is missing.)
\<close>

theorem story_without_text_single_attempt:
  "crearCuentoEImagenesSecuencia mundo_sin_texto (js ''gato'') (js ''Lima'') (js ''mapa'') 1
     = (Inl error_sin_cuento, [Attempt 0])
 \<and> attempts_of (snd (crearCuentoEImagenesSecuencia mundo_sin_texto (js ''gato'') (js ''Lima'')
      (js ''mapa'') 1)) = [0]
 \<and> crearCuentoEImagenesSecuencia
       (mundo_feliz \<lparr> generar_cuento := (\<lambda>prompt i. respuesta_texto []) \<rparr>)
       (js ''gato'') (js ''Lima'') (js ''mapa'') 1
     = (Inl error_sin_cuento, [Attempt 0])"
  by code_simp

section \<open>Backoff waits\<close>

lemma parse_no_json: "JSON_parse (cleanedText (js ''no json'')) = None"
  by code_simp

lemma parse_empty_array: "JSON_parse (cleanedText (js ''[]'')) = Some (JArray [])"
  by code_simp

lemma five_rounds:
  "rounds c [0..<maxAttempts] =
     [Attempt 0, Warn 1 (c 0), Sleep 0, Attempt 1, Warn 2 (c 1), Sleep 1,
      Attempt 2, Warn 3 (c 2), Sleep 2, Attempt 3, Warn 4 (c 3), Sleep 3,
      Attempt 4, Warn 5 (c 4), Sleep 4]"
  by (simp add: upt_five rounds_simps)

lemma five_parse_rounds:
  "parse_rounds [0..<maxAttempts] =
     [Attempt 0, Warn 1 Fallido_parsear, Attempt 1, Warn 2 Fallido_parsear,
      Attempt 2, Warn 3 Fallido_parsear, Attempt 3, Warn 4 Fallido_parsear,
      Attempt 4, Warn 5 Fallido_parsear]"
  by (simp add: upt_five parse_rounds_simps)

lemma parse_fails_no_json: "parse_fails (respuesta_texto (js ''no json''))"
  by (simp add: parse_fails_def respuesta_texto_def has_candidates_def first_text_def
        first_parts_def parse_prompts_def parse_no_json)

text \<open>
  C10, as stated, fails in the scene-prompt loop: when the text of every response is
  not JSON, the five attempts are each followed by the warning of the inner \<open>catch\<close>
  and by no wait at all, and the fallback is returned.
\<close>

theorem no_wait_after_parse_failures_counterexample:
  "generarPromptsSecuenciales mundo_sin_json (js ''Fin'') 3 [] =
     (fallback_prompts (js ''Fin''),
      [Attempt 0, Warn 1 Fallido_parsear, Attempt 1, Warn 2 Fallido_parsear,
       Attempt 2, Warn 3 Fallido_parsear, Attempt 3, Warn 4 Fallido_parsear,
       Attempt 4, Warn 5 Fallido_parsear, Warn_fallback])
 \<and> sleeps_of (snd (generarPromptsSecuenciales mundo_sin_json (js ''Fin'') 3 [])) = []"
  by code_simp

text \<open>
  C10, amended. In the story, image and audio loops, an attempt that fails the test of
  its loop (the call throws, an error is thrown while the response is read, or the
  response has no candidates; for an image also no inline data or a failed write) is
  followed by a warning and a backoff wait, the fifth one too: when all five attempts
  fail in that way, the run of the loop is attempt, warning, \<open>sleep(0)\<close>, ...,
  attempt, warning, \<open>sleep(4)\<close>, five waits in all, and only then does it end
  exhausted. The same holds in the scene-prompt loop when every attempt fails by a
  thrown error or a response without candidates; when every attempt fails to parse, its
  run has five attempts and warnings and no wait.
\<close>

theorem five_waits_when_all_attempts_fail:
  "((\<forall>i<maxAttempts. response_fails (gc i)) \<longrightarrow>
      (\<exists>c :: nat \<Rightarrow> warning. cuento_loop gc 0 tr =
             (None, tr @ [Attempt 0, Warn 1 (c 0), Sleep 0, Attempt 1, Warn 2 (c 1), Sleep 1,
                          Attempt 2, Warn 3 (c 2), Sleep 2, Attempt 3, Warn 4 (c 3), Sleep 3,
                          Attempt 4, Warn 5 (c 4), Sleep 4]))
    \<and> sleeps_of (snd (cuento_loop gc 0 tr)) = sleeps_of tr @ [0, 1, 2, 3, 4])
 \<and> ((\<forall>i<maxAttempts. \<not> imagen_ok w ip j i) \<longrightarrow>
      (\<exists>c :: nat \<Rightarrow> warning. imagen_loop w ip j 0 urls tr =
             (urls, tr @ [Attempt 0, Warn 1 (c 0), Sleep 0, Attempt 1, Warn 2 (c 1), Sleep 1,
                          Attempt 2, Warn 3 (c 2), Sleep 2, Attempt 3, Warn 4 (c 3), Sleep 3,
                          Attempt 4, Warn 5 (c 4), Sleep 4]))
    \<and> sleeps_of (snd (imagen_loop w ip j 0 urls tr)) = sleeps_of tr @ [0, 1, 2, 3, 4])
 \<and> ((\<forall>i<maxAttempts. audio_fails (ga i)) \<longrightarrow>
      (\<exists>(c :: nat \<Rightarrow> warning) r'. audio_loop ga 0 None tr =
             (r', tr @ [Attempt 0, Warn 1 (c 0), Sleep 0, Attempt 1, Warn 2 (c 1), Sleep 1,
                          Attempt 2, Warn 3 (c 2), Sleep 2, Attempt 3, Warn 4 (c 3), Sleep 3,
                          Attempt 4, Warn 5 (c 4), Sleep 4])
           \<and> \<not> has_candidates r')
    \<and> sleeps_of (snd (audio_loop ga 0 None tr)) = sleeps_of tr @ [0, 1, 2, 3, 4])
 \<and> ((\<forall>i<maxAttempts. response_fails (gp i)) \<longrightarrow>
      (\<exists>c :: nat \<Rightarrow> warning. prompts_loop gp np 0 tr =
             (None, tr @ [Attempt 0, Warn 1 (c 0), Sleep 0, Attempt 1, Warn 2 (c 1), Sleep 1,
                          Attempt 2, Warn 3 (c 2), Sleep 2, Attempt 3, Warn 4 (c 3), Sleep 3,
                          Attempt 4, Warn 5 (c 4), Sleep 4]))
    \<and> sleeps_of (snd (prompts_loop gp np 0 tr)) = sleeps_of tr @ [0, 1, 2, 3, 4])
 \<and> ((\<forall>i<maxAttempts. parse_fails (gp i)) \<longrightarrow>
      prompts_loop gp np 0 tr =
        (None, tr @ [Attempt 0, Warn 1 Fallido_parsear, Attempt 1, Warn 2 Fallido_parsear,
                     Attempt 2, Warn 3 Fallido_parsear, Attempt 3, Warn 4 Fallido_parsear,
                     Attempt 4, Warn 5 Fallido_parsear])
    \<and> sleeps_of (snd (prompts_loop gp np 0 tr)) = sleeps_of tr)"
proof (intro conjI impI)
  assume fails: "\<forall>i<maxAttempts. response_fails (gc i)"
  from fails show run: "\<exists>c :: nat \<Rightarrow> warning. cuento_loop gc 0 tr =
             (None, tr @ [Attempt 0, Warn 1 (c 0), Sleep 0, Attempt 1, Warn 2 (c 1), Sleep 1,
                          Attempt 2, Warn 3 (c 2), Sleep 2, Attempt 3, Warn 4 (c 3), Sleep 3,
                          Attempt 4, Warn 5 (c 4), Sleep 4])"
    using cuento_loop_all_fail [of 0 gc tr] by (simp add: five_rounds)
  from run show "sleeps_of (snd (cuento_loop gc 0 tr)) = sleeps_of tr @ [0, 1, 2, 3, 4]"
    by (auto simp: sleeps_of_append sleeps_of_simps)
next
  assume fails: "\<forall>i<maxAttempts. \<not> imagen_ok w ip j i"
  from fails show run: "\<exists>c :: nat \<Rightarrow> warning. imagen_loop w ip j 0 urls tr =
             (urls, tr @ [Attempt 0, Warn 1 (c 0), Sleep 0, Attempt 1, Warn 2 (c 1), Sleep 1,
                          Attempt 2, Warn 3 (c 2), Sleep 2, Attempt 3, Warn 4 (c 3), Sleep 3,
                          Attempt 4, Warn 5 (c 4), Sleep 4])"
    using imagen_loop_all_fail [of 0 w ip j urls tr] by (simp add: five_rounds)
  from run show "sleeps_of (snd (imagen_loop w ip j 0 urls tr)) = sleeps_of tr @ [0, 1, 2, 3, 4]"
    by (auto simp: sleeps_of_append sleeps_of_simps)
next
  assume fails: "\<forall>i<maxAttempts. audio_fails (ga i)"
  have none: "\<not> has_candidates None" by (simp add: has_candidates_def)
  from fails none show run: "\<exists>(c :: nat \<Rightarrow> warning) r'. audio_loop ga 0 None tr =
             (r', tr @ [Attempt 0, Warn 1 (c 0), Sleep 0, Attempt 1, Warn 2 (c 1), Sleep 1,
                          Attempt 2, Warn 3 (c 2), Sleep 2, Attempt 3, Warn 4 (c 3), Sleep 3,
                          Attempt 4, Warn 5 (c 4), Sleep 4])
           \<and> \<not> has_candidates r'"
    using audio_loop_all_fail [of 0 ga None tr] by (simp add: five_rounds)
  from run show "sleeps_of (snd (audio_loop ga 0 None tr)) = sleeps_of tr @ [0, 1, 2, 3, 4]"
    by (auto simp: sleeps_of_append sleeps_of_simps)
next
  assume fails: "\<forall>i<maxAttempts. response_fails (gp i)"
  from fails show run: "\<exists>c :: nat \<Rightarrow> warning. prompts_loop gp np 0 tr =
             (None, tr @ [Attempt 0, Warn 1 (c 0), Sleep 0, Attempt 1, Warn 2 (c 1), Sleep 1,
                          Attempt 2, Warn 3 (c 2), Sleep 2, Attempt 3, Warn 4 (c 3), Sleep 3,
                          Attempt 4, Warn 5 (c 4), Sleep 4])"
    using prompts_loop_all_fail [of 0 gp np tr] by (simp add: five_rounds)
  from run show "sleeps_of (snd (prompts_loop gp np 0 tr)) = sleeps_of tr @ [0, 1, 2, 3, 4]"
    by (auto simp: sleeps_of_append sleeps_of_simps)
next
  assume fails: "\<forall>i<maxAttempts. parse_fails (gp i)"
  then show run: "prompts_loop gp np 0 tr =
        (None, tr @ [Attempt 0, Warn 1 Fallido_parsear, Attempt 1, Warn 2 Fallido_parsear,
                     Attempt 2, Warn 3 Fallido_parsear, Attempt 3, Warn 4 Fallido_parsear,
                     Attempt 4, Warn 5 Fallido_parsear])"
    using prompts_loop_all_parse_fail [of 0 gp np tr] by (simp add: five_parse_rounds)
  from run show "sleeps_of (snd (prompts_loop gp np 0 tr)) = sleeps_of tr"
    by (simp add: sleeps_of_append sleeps_of_simps)
qed

theorem five_waits_when_all_attempts_fail_witness:
  "(\<exists>c :: nat \<Rightarrow> warning. cuento_loop (generar_cuento mundo_caido []) 0 [] =
             (None, [Attempt 0, Warn 1 (c 0), Sleep 0, Attempt 1, Warn 2 (c 1), Sleep 1,
                     Attempt 2, Warn 3 (c 2), Sleep 2, Attempt 3, Warn 4 (c 3), Sleep 3,
                     Attempt 4, Warn 5 (c 4), Sleep 4]))
 \<and> sleeps_of (snd (cuento_loop (generar_cuento mundo_caido []) 0 [])) = [0, 1, 2, 3, 4]
 \<and> (\<exists>c :: nat \<Rightarrow> warning. imagen_loop mundo_caido JNull 0 0 [] [] =
             ([], [Attempt 0, Warn 1 (c 0), Sleep 0, Attempt 1, Warn 2 (c 1), Sleep 1,
                     Attempt 2, Warn 3 (c 2), Sleep 2, Attempt 3, Warn 4 (c 3), Sleep 3,
                     Attempt 4, Warn 5 (c 4), Sleep 4]))
 \<and> sleeps_of (snd (imagen_loop mundo_caido JNull 0 0 [] [])) = [0, 1, 2, 3, 4]
 \<and> (\<exists>(c :: nat \<Rightarrow> warning) r'. audio_loop (generar_audio mundo_caido []) 0 None [] =
             (r', [Attempt 0, Warn 1 (c 0), Sleep 0, Attempt 1, Warn 2 (c 1), Sleep 1,
                     Attempt 2, Warn 3 (c 2), Sleep 2, Attempt 3, Warn 4 (c 3), Sleep 3,
                     Attempt 4, Warn 5 (c 4), Sleep 4]))
 \<and> sleeps_of (snd (audio_loop (generar_audio mundo_caido []) 0 None [])) = [0, 1, 2, 3, 4]
 \<and> (\<exists>c :: nat \<Rightarrow> warning. prompts_loop (generar_prompts mundo_caido []) 3 0 [] =
             (None, [Attempt 0, Warn 1 (c 0), Sleep 0, Attempt 1, Warn 2 (c 1), Sleep 1,
                     Attempt 2, Warn 3 (c 2), Sleep 2, Attempt 3, Warn 4 (c 3), Sleep 3,
                     Attempt 4, Warn 5 (c 4), Sleep 4]))
 \<and> sleeps_of (snd (prompts_loop (generar_prompts mundo_caido []) 3 0 [])) = [0, 1, 2, 3, 4]
 \<and> prompts_loop (generar_prompts mundo_sin_json []) 3 0 [] =
        (None, [Attempt 0, Warn 1 Fallido_parsear, Attempt 1, Warn 2 Fallido_parsear,
                     Attempt 2, Warn 3 Fallido_parsear, Attempt 3, Warn 4 Fallido_parsear,
                     Attempt 4, Warn 5 Fallido_parsear])
 \<and> sleeps_of (snd (prompts_loop (generar_prompts mundo_sin_json []) 3 0 [])) = []"
proof -
  have h1: "\<forall>i<maxAttempts. response_fails (generar_cuento mundo_caido [] i)"
    by (simp add: mundo_caido_simps response_fails_def)
  have h2: "\<forall>i<maxAttempts. \<not> imagen_ok mundo_caido JNull 0 i"
    by (simp add: imagen_ok_def mundo_caido_simps)
  have h3: "\<forall>i<maxAttempts. audio_fails (generar_audio mundo_caido [] i)"
    by (simp add: audio_fails_def mundo_caido_simps)
  have h4: "\<forall>i<maxAttempts. response_fails (generar_prompts mundo_caido [] i)"
    by (simp add: mundo_caido_simps response_fails_def)
  have h5: "\<forall>i<maxAttempts. parse_fails (generar_prompts mundo_sin_json [] i)"
    by (simp add: mundo_sin_json_def parse_fails_no_json)
  from five_waits_when_all_attempts_fail [of "generar_cuento mundo_caido []" "[]" mundo_caido JNull 0
      "[]" "generar_audio mundo_caido []" "generar_prompts mundo_caido []" 3]
    h1 h2 h3 h4
  have a: "(\<exists>c :: nat \<Rightarrow> warning. cuento_loop (generar_cuento mundo_caido []) 0 [] =
               (None, [Attempt 0, Warn 1 (c 0), Sleep 0, Attempt 1, Warn 2 (c 1), Sleep 1,
                       Attempt 2, Warn 3 (c 2), Sleep 2, Attempt 3, Warn 4 (c 3), Sleep 3,
                       Attempt 4, Warn 5 (c 4), Sleep 4]))
   \<and> sleeps_of (snd (cuento_loop (generar_cuento mundo_caido []) 0 [])) = [0, 1, 2, 3, 4]
   \<and> (\<exists>c :: nat \<Rightarrow> warning. imagen_loop mundo_caido JNull 0 0 [] [] =
               ([], [Attempt 0, Warn 1 (c 0), Sleep 0, Attempt 1, Warn 2 (c 1), Sleep 1,
                       Attempt 2, Warn 3 (c 2), Sleep 2, Attempt 3, Warn 4 (c 3), Sleep 3,
                       Attempt 4, Warn 5 (c 4), Sleep 4]))
   \<and> sleeps_of (snd (imagen_loop mundo_caido JNull 0 0 [] [])) = [0, 1, 2, 3, 4]
   \<and> (\<exists>(c :: nat \<Rightarrow> warning) r'. audio_loop (generar_audio mundo_caido []) 0 None [] =
               (r', [Attempt 0, Warn 1 (c 0), Sleep 0, Attempt 1, Warn 2 (c 1), Sleep 1,
                       Attempt 2, Warn 3 (c 2), Sleep 2, Attempt 3, Warn 4 (c 3), Sleep 3,
                       Attempt 4, Warn 5 (c 4), Sleep 4]))
   \<and> sleeps_of (snd (audio_loop (generar_audio mundo_caido []) 0 None [])) = [0, 1, 2, 3, 4]
   \<and> (\<exists>c :: nat \<Rightarrow> warning. prompts_loop (generar_prompts mundo_caido []) 3 0 [] =
               (None, [Attempt 0, Warn 1 (c 0), Sleep 0, Attempt 1, Warn 2 (c 1), Sleep 1,
                       Attempt 2, Warn 3 (c 2), Sleep 2, Attempt 3, Warn 4 (c 3), Sleep 3,
                       Attempt 4, Warn 5 (c 4), Sleep 4]))
   \<and> sleeps_of (snd (prompts_loop (generar_prompts mundo_caido []) 3 0 [])) = [0, 1, 2, 3, 4]"
    by (simp add: sleeps_of_simps) blast
  from five_waits_when_all_attempts_fail [of "generar_cuento mundo_caido []" "[]" mundo_caido JNull 0
      "[]" "generar_audio mundo_caido []" "generar_prompts mundo_sin_json []" 3] h5
  have b: "prompts_loop (generar_prompts mundo_sin_json []) 3 0 [] =
          (None, [Attempt 0, Warn 1 Fallido_parsear, Attempt 1, Warn 2 Fallido_parsear,
                       Attempt 2, Warn 3 Fallido_parsear, Attempt 3, Warn 4 Fallido_parsear,
                       Attempt 4, Warn 5 Fallido_parsear])
   \<and> sleeps_of (snd (prompts_loop (generar_prompts mundo_sin_json []) 3 0 [])) = []"
    by (simp add: sleeps_of_simps)
  from a b show ?thesis by blast
qed

section \<open>What follows a failed attempt\<close>

lemma audio_loop_fail_step:
  assumes "i < maxAttempts" and "audio_fails (gen i)"
  shows "\<exists>c r'. audio_loop gen i r tr =
                 audio_loop gen (Suc i) r' (tr @ [Attempt i, Warn (i + 1) c, Sleep i])"
  using assms
  by (subst audio_loop.simps)
     (auto simp: audio_fails_def split: outcome.splits)

text \<open>
  C2, as stated, fails in the scene-prompt loop: a response whose text is not JSON is
  followed by a warning and by the next attempt with no wait in between, and a response
  whose text is an empty array by the next attempt with neither warning nor wait.
\<close>

theorem parse_failure_without_wait_counterexample:
  "generarPromptsSecuenciales mundo_reintento (js ''Fin'') 3 [] =
     ([JString (js ''a''), JString (js ''b''), JString (js ''c'')],
      [Attempt 0, Warn 1 Fallido_parsear, Attempt 1, Attempt 2])
 \<and> parse_fails (generar_prompts mundo_reintento (promptText (js ''Fin'') 3) 0)
 \<and> sleeps_of (snd (generarPromptsSecuenciales mundo_reintento (js ''Fin'') 3 [])) = []"
  by code_simp

text \<open>
  C2, amended. In every retry loop, an attempt that throws or whose response fails the
  test of the stage (no candidates; for an image also no inline data or a failed write)
  is followed by a warning, by the backoff wait \<open>sleep(i)\<close> and then by the next
  iteration. In the scene-prompt loop, an attempt whose text cannot be parsed is
  followed by a warning and then by the next iteration, with no wait.
\<close>

theorem failed_attempt_warns_waits_continues:
  assumes "i < maxAttempts"
  shows "(response_fails (gc i) \<longrightarrow>
            (\<exists>c. cuento_loop gc i tr =
                   cuento_loop gc (Suc i) (tr @ [Attempt i, Warn (i + 1) c, Sleep i])))
       \<and> (response_fails (gp i) \<longrightarrow>
            (\<exists>c. prompts_loop gp np i tr =
                   prompts_loop gp np (Suc i) (tr @ [Attempt i, Warn (i + 1) c, Sleep i])))
       \<and> (parse_fails (gp i) \<longrightarrow>
            prompts_loop gp np i tr =
              prompts_loop gp np (Suc i) (tr @ [Attempt i, Warn (i + 1) Fallido_parsear]))
       \<and> (\<not> imagen_ok w ip j i \<longrightarrow>
            (\<exists>c. imagen_loop w ip j i urls tr =
                   imagen_loop w ip j (Suc i) urls (tr @ [Attempt i, Warn (i + 1) c, Sleep i])))
       \<and> (audio_fails (ga i) \<longrightarrow>
            (\<exists>c r'. audio_loop ga i r tr =
                      audio_loop ga (Suc i) r' (tr @ [Attempt i, Warn (i + 1) c, Sleep i])))"
  using assms cuento_loop_fail [of i gc tr] prompts_loop_fail [of i gp np tr]
    prompts_loop_parse_fails [of i gp np tr] imagen_loop_fail [of i w ip j urls tr]
    audio_loop_fail_step [of i ga r tr]
  by blast

theorem failed_attempt_warns_waits_continues_witness:
  "(\<exists>c. cuento_loop (generar_cuento mundo_caido []) 4 [] =
          cuento_loop (generar_cuento mundo_caido []) 5 [Attempt 4, Warn 5 c, Sleep 4])
 \<and> (\<exists>c. prompts_loop (generar_prompts mundo_caido []) 3 4 [] =
          prompts_loop (generar_prompts mundo_caido []) 3 5 [Attempt 4, Warn 5 c, Sleep 4])
 \<and> prompts_loop (generar_prompts mundo_sin_json []) 3 4 [] =
       prompts_loop (generar_prompts mundo_sin_json []) 3 5 [Attempt 4, Warn 5 Fallido_parsear]
 \<and> (\<exists>c. imagen_loop mundo_caido JNull 0 4 [] [] =
          imagen_loop mundo_caido JNull 0 5 [] [Attempt 4, Warn 5 c, Sleep 4])
 \<and> (\<exists>c r'. audio_loop (generar_audio mundo_caido []) 4 None [] =
          audio_loop (generar_audio mundo_caido []) 5 r' [Attempt 4, Warn 5 c, Sleep 4])"
proof -
  have h0: "4 < maxAttempts" by (simp add: maxAttempts_def)
  have h1: "response_fails (generar_cuento mundo_caido [] 4)"
    by (simp add: mundo_caido_simps response_fails_def)
  have h2: "response_fails (generar_prompts mundo_caido [] 4)"
    by (simp add: mundo_caido_simps response_fails_def)
  have h3: "parse_fails (generar_prompts mundo_sin_json [] 4)"
    by (simp add: mundo_sin_json_def parse_fails_no_json)
  have h4: "\<not> imagen_ok mundo_caido JNull 0 4"
    by (simp add: imagen_ok_def mundo_caido_simps)
  have h5: "audio_fails (generar_audio mundo_caido [] 4)"
    by (simp add: audio_fails_def mundo_caido_simps)
  from failed_attempt_warns_waits_continues [OF h0, of "generar_cuento mundo_caido []" "[]"
      "generar_prompts mundo_caido []" 3 mundo_caido JNull 0 "[]" "generar_audio mundo_caido []" None]
    h1 h2 h4 h5
  have a: "(\<exists>c. cuento_loop (generar_cuento mundo_caido []) 4 [] =
          cuento_loop (generar_cuento mundo_caido []) 5 [Attempt 4, Warn 5 c, Sleep 4])
 \<and> (\<exists>c. prompts_loop (generar_prompts mundo_caido []) 3 4 [] =
          prompts_loop (generar_prompts mundo_caido []) 3 5 [Attempt 4, Warn 5 c, Sleep 4])
 \<and> (\<exists>c. imagen_loop mundo_caido JNull 0 4 [] [] =
          imagen_loop mundo_caido JNull 0 5 [] [Attempt 4, Warn 5 c, Sleep 4])
 \<and> (\<exists>c r'. audio_loop (generar_audio mundo_caido []) 4 None [] =
          audio_loop (generar_audio mundo_caido []) 5 r' [Attempt 4, Warn 5 c, Sleep 4])"
    by (simp add: eval_nat_numeral)
  from failed_attempt_warns_waits_continues [OF h0, of "generar_cuento mundo_caido []" "[]"
      "generar_prompts mundo_sin_json []" 3 mundo_caido JNull 0 "[]" "generar_audio mundo_caido []" None]
    h3
  have b: "prompts_loop (generar_prompts mundo_sin_json []) 3 4 [] =
       prompts_loop (generar_prompts mundo_sin_json []) 3 5 [Attempt 4, Warn 5 Fallido_parsear]"
    by (simp add: eval_nat_numeral)
  from a b show ?thesis by blast
qed

section \<open>The scene-prompt stage\<close>

lemma substring_0_50: "substring s 0 50 = take 50 s"
  by (simp add: substring_def Let_def min_def max_def)

lemma substring_50_100: "substring s 50 100 = take 50 (drop 50 s)"
proof -
  consider "length s < 50" | "50 \<le> length s" "length s < 100" | "100 \<le> length s"
    by linarith
  then show ?thesis
  proof cases
    case 1
    then show ?thesis by (simp add: substring_def Let_def min_def max_def)
  next
    case 2
    then show ?thesis by (simp add: substring_def Let_def min_def max_def)
  next
    case 3
    then show ?thesis by (simp add: substring_def Let_def min_def max_def)
  qed
qed

lemma substring_100_150: "substring s 100 150 = take 50 (drop 100 s)"
proof -
  consider "length s < 100" | "100 \<le> length s" "length s < 150" | "150 \<le> length s"
    by linarith
  then show ?thesis
  proof cases
    case 1
    then show ?thesis by (simp add: substring_def Let_def min_def max_def)
  next
    case 2
    then show ?thesis by (simp add: substring_def Let_def min_def max_def)
  next
    case 3
    then show ?thesis by (simp add: substring_def Let_def min_def max_def)
  qed
qed

lemma slice0_take: "0 \<le> n \<Longrightarrow> slice0 xs n = take (nat n) xs"
  by (simp add: slice0_def Let_def min_def)

lemma length_slice0: "1 \<le> n \<Longrightarrow> length (slice0 xs n) \<le> nat n"
  by (simp add: slice0_take)

lemma set_replace_fences: "set (replace_fences s) \<subseteq> set s"
proof (induction s rule: replace_fences.induct)
  case (1 s)
  show ?case
  proof (cases "startsWith s (fence @ js ''json'')")
    case True
    then have "replace_fences s = replace_fences (drop 7 s)"
      by (subst replace_fences.simps) simp
    moreover have "set (drop 7 s) \<subseteq> set s"
      by (rule set_drop_subset)
    ultimately show ?thesis
      using "1.IH"(1) [OF True] by auto
  next
    case no_json: False
    show ?thesis
    proof (cases "startsWith s fence")
      case True
      with no_json have "replace_fences s = replace_fences (drop 3 s)"
        by (subst replace_fences.simps) simp
      moreover have "set (drop 3 s) \<subseteq> set s"
        by (rule set_drop_subset)
      ultimately show ?thesis
        using "1.IH"(2) [OF no_json True] by auto
    next
      case False
      show ?thesis
      proof (cases s)
        case Nil
        with no_json False show ?thesis
          by (subst replace_fences.simps) simp
      next
        case (Cons c r)
        with no_json False have "replace_fences s = c # replace_fences r"
          by (subst replace_fences.simps) simp
        with "1.IH"(3) [OF no_json False Cons] Cons show ?thesis
          by auto
      qed
    qed
  qed
qed

lemma set_trim: "set (trim s) \<subseteq> set s"
proof -
  have "set (dropWhile is_js_space (rev (dropWhile is_js_space s)))
          \<subseteq> set (rev (dropWhile is_js_space s))"
    by (meson set_dropWhileD subsetI)
  also have "\<dots> \<subseteq> set s"
    using set_dropWhileD by fastforce
  finally show ?thesis by (simp add: trim_def)
qed

lemma set_cleanedText: "set (cleanedText t) \<subseteq> set t"
proof -
  have "set (substring_from t (indexOf t 0x5B)) \<subseteq> set t"
    by (simp add: substring_from_def set_drop_subset)
  with set_replace_fences [of "substring_from t (indexOf t 0x5B)"]
    set_trim [of "replace_fences (substring_from t (indexOf t 0x5B))"]
  show ?thesis unfolding cleanedText_def by blast
qed

lemma json_literal_value: "json_literal word v s = Some (x, rest) \<Longrightarrow> x = v"
  by (simp add: json_literal_def split: if_splits)

lemma parse_value_array:
  assumes "parse_value s = Some (JArray xs, rest)"
  shows "\<exists>r. s = 0x5B # r"
proof (cases s)
  case Nil
  with assms show ?thesis by (subst (asm) parse_value.simps) simp
next
  case (Cons c r)
  show ?thesis
  proof (cases "c = 0x5B")
    case True
    with Cons show ?thesis by simp
  next
    case False
    have "parse_value (c # r) = Some (JArray xs, rest)"
      using assms Cons by simp
    then have False
      using False
      apply (subst (asm) parse_value.simps)
      apply (simp split: if_splits option.splits list.splits prod.splits)
      apply (auto dest: json_literal_value)
      done
    then show ?thesis ..
  qed
qed

lemma JSON_parse_array:
  assumes "JSON_parse s = Some (JArray xs)"
  shows "0x5B \<in> set s"
proof -
  from assms obtain rest where "parse_value (skip_ws s) = Some (JArray xs, rest)"
    by (auto simp: JSON_parse_def split: option.splits if_splits)
  then obtain r where "skip_ws s = 0x5B # r"
    using parse_value_array by blast
  then have "0x5B \<in> set (skip_ws s)" by simp
  then show ?thesis
    unfolding skip_ws_def by (rule set_dropWhileD)
qed

lemma prompts_of_Returns:
  assumes "has_candidates r" and "first_text r = Inr (Some t)"
  shows "prompts_of (Returns r) =
           (case JSON_parse (cleanedText t) of
              Some (JArray (p # ps)) \<Rightarrow> Some (p # ps)
            | _ \<Rightarrow> None)"
  using assms
  by (simp add: prompts_of_def parse_prompts_def split: option.splits json.splits list.splits)

lemma prompts_of_SomeD:
  assumes "prompts_of out = Some xs"
  shows "\<exists>t. text_of out = Some t \<and> JSON_parse (cleanedText t) = Some (JArray xs)"
proof (cases out)
  case (Throws e)
  with assms show ?thesis by (simp add: prompts_of_def)
next
  case (Returns r)
  show ?thesis
  proof (cases "has_candidates r")
    case False
    with assms Returns show ?thesis by (simp add: prompts_of_def)
  next
    case True
    show ?thesis
    proof (cases "first_text r")
      case (Inl e)
      with assms Returns True show ?thesis by (simp add: prompts_of_def)
    next
      case (Inr jsonText)
      show ?thesis
      proof (cases jsonText)
        case None
        with assms Returns True Inr show ?thesis
          by (simp add: prompts_of_def parse_prompts_def)
      next
        case (Some t)
        with Returns True Inr have tx: "text_of out = Some t"
          by (simp add: text_of_def)
        from assms Returns have "JSON_parse (cleanedText t) = Some (JArray xs)"
          using prompts_of_Returns [OF True, of t] Inr Some
          by (simp split: option.splits json.splits list.splits)
        with tx show ?thesis by blast
      qed
    qed
  qed
qed

lemma no_bracket_no_prompts:
  assumes "\<forall>t. text_of out = Some t \<longrightarrow> 0x5B \<notin> set t"
  shows "prompts_of out = None"
proof (rule ccontr)
  assume "prompts_of out \<noteq> None"
  then obtain xs where "prompts_of out = Some xs" by blast
  then obtain t where tx: "text_of out = Some t"
    and parse: "JSON_parse (cleanedText t) = Some (JArray xs)"
    using prompts_of_SomeD by blast
  from tx assms have "0x5B \<notin> set t" by blast
  moreover from parse have "0x5B \<in> set (cleanedText t)"
    by (rule JSON_parse_array)
  ultimately show False
    using set_cleanedText [of t] by blast
qed

lemma prompts_of_text:
  assumes "text_of out = Some t" and "JSON_parse (cleanedText t) = Some (JArray (p # ps))"
  shows "prompts_of out = Some (p # ps)"
  using assms
  by (auto simp: text_of_def prompts_of_def parse_prompts_def
        split: outcome.splits if_splits sum.splits)

lemma generarPromptsSecuenciales_fallback:
  assumes "\<forall>i<maxAttempts. prompts_of (generar_prompts w (promptText story n) i) = None"
  shows "fst (generarPromptsSecuenciales w story n tr) = fallback_prompts story"
proof -
  from assms have "fst (prompts_loop (generar_prompts w (promptText story n)) n 0 tr) = None"
    using prompts_loop_all_none [of 0 "generar_prompts w (promptText story n)" n tr] by simp
  then show ?thesis
    by (cases "prompts_loop (generar_prompts w (promptText story n)) n 0 tr")
       (simp add: generarPromptsSecuenciales_def)
qed

lemma generarPromptsSecuenciales_success:
  assumes "k < maxAttempts"
    and "\<forall>i<k. prompts_of (generar_prompts w (promptText story n) i) = None"
    and "prompts_of (generar_prompts w (promptText story n) k) = Some ps"
  shows "fst (generarPromptsSecuenciales w story n tr) = slice0 ps n"
proof -
  from assms have "fst (prompts_loop (generar_prompts w (promptText story n)) n 0 tr)
                     = Some (slice0 ps n)"
    using prompts_loop_first_success [of k 0 "generar_prompts w (promptText story n)" ps n tr]
    by simp
  then show ?thesis
    by (cases "prompts_loop (generar_prompts w (promptText story n)) n 0 tr")
       (simp add: generarPromptsSecuenciales_def)
qed

text \<open>
  C5. When no attempt of the scene-prompt stage yields a non-empty JSON array (in
  particular when no response text has a \<open>[\<close>), the stage returns the fallback: three
  prompts, each a fixed sentence around the characters 0 to 50, 50 to 100 and 100 to 150
  of the story, whatever the world and the requested count.
\<close>

theorem fallback_when_no_array:
  "((\<forall>i<maxAttempts. prompts_of (generar_prompts w (promptText story n) i) = None) \<longrightarrow>
      fst (generarPromptsSecuenciales w story n tr) = fallback_prompts story)
 \<and> ((\<forall>i<maxAttempts. \<forall>t. text_of (generar_prompts w (promptText story n) i) = Some t
                            \<longrightarrow> 0x5B \<notin> set t) \<longrightarrow>
      fst (generarPromptsSecuenciales w story n tr) = fallback_prompts story)
 \<and> fallback_prompts story =
      [JString (js ''Render 3D de alta calidad, que muestre la escena principal del cuento: ''
                @ take 50 story @ js ''...''),
       JString (js ''Render 3D de alta calidad, que muestre una escena de acci'' @ [0xF3]
                @ js ''n del cuento: '' @ take 50 (drop 50 story) @ js ''...''),
       JString (js ''Render 3D de alta calidad, que muestre el final feliz del cuento: ''
                @ take 50 (drop 100 story) @ js ''...'')]"
proof (intro conjI impI)
  assume "\<forall>i<maxAttempts. prompts_of (generar_prompts w (promptText story n) i) = None"
  then show "fst (generarPromptsSecuenciales w story n tr) = fallback_prompts story"
    by (rule generarPromptsSecuenciales_fallback)
next
  assume "\<forall>i<maxAttempts. \<forall>t. text_of (generar_prompts w (promptText story n) i) = Some t
            \<longrightarrow> 0x5B \<notin> set t"
  then have "\<forall>i<maxAttempts. prompts_of (generar_prompts w (promptText story n) i) = None"
    by (intro allI impI no_bracket_no_prompts) simp
  then show "fst (generarPromptsSecuenciales w story n tr) = fallback_prompts story"
    by (rule generarPromptsSecuenciales_fallback)
next
  show "fallback_prompts story =
      [JString (js ''Render 3D de alta calidad, que muestre la escena principal del cuento: ''
                @ take 50 story @ js ''...''),
       JString (js ''Render 3D de alta calidad, que muestre una escena de acci'' @ [0xF3]
                @ js ''n del cuento: '' @ take 50 (drop 50 story) @ js ''...''),
       JString (js ''Render 3D de alta calidad, que muestre el final feliz del cuento: ''
                @ take 50 (drop 100 story) @ js ''...'')]"
    unfolding fallback_prompts_def substring_0_50 substring_50_100 substring_100_150 ..
qed



theorem fallback_when_no_array_witness:
  "fst (generarPromptsSecuenciales mundo_caido
          (replicate 50 0x61 @ replicate 50 0x62 @ replicate 20 0x63) 1 [])
     = fallback_prompts (replicate 50 0x61 @ replicate 50 0x62 @ replicate 20 0x63)
 \<and> fst (generarPromptsSecuenciales mundo_sin_json
          (replicate 50 0x61 @ replicate 50 0x62 @ replicate 20 0x63) 1 [])
     = fallback_prompts (replicate 50 0x61 @ replicate 50 0x62 @ replicate 20 0x63)
 \<and> fallback_prompts (replicate 50 0x61 @ replicate 50 0x62 @ replicate 20 0x63) =
      [JString (js ''Render 3D de alta calidad, que muestre la escena principal del cuento: ''
                @ replicate 50 0x61 @ js ''...''),
       JString (js ''Render 3D de alta calidad, que muestre una escena de acci'' @ [0xF3]
                @ js ''n del cuento: '' @ replicate 50 0x62 @ js ''...''),
       JString (js ''Render 3D de alta calidad, que muestre el final feliz del cuento: ''
                @ replicate 20 0x63 @ js ''...'')]"
proof -
  let ?story = "replicate 50 0x61 @ replicate 50 0x62 @ replicate 20 (0x63 :: jschar)"
  have h1: "\<forall>i<maxAttempts.
              prompts_of (generar_prompts mundo_caido (promptText ?story 1) i) = None"
    by (simp add: mundo_caido_simps prompts_of_def)
  have "0x5B \<notin> set (js ''no json'')"
    by (simp add: js_def)
  then have h2: "\<forall>i<maxAttempts. \<forall>t.
              text_of (generar_prompts mundo_sin_json (promptText ?story 1) i) = Some t
                \<longrightarrow> 0x5B \<notin> set t"
    by (simp add: mundo_sin_json_def text_of_def respuesta_texto_def has_candidates_def
          first_text_def first_parts_def)
  from fallback_when_no_array [of mundo_caido ?story 1 "[]"] h1
  have a: "fst (generarPromptsSecuenciales mundo_caido ?story 1 []) = fallback_prompts ?story"
    by blast
  from fallback_when_no_array [of mundo_sin_json ?story 1 "[]"] h2
  have b: "fst (generarPromptsSecuenciales mundo_sin_json ?story 1 []) = fallback_prompts ?story"
    by blast
  from fallback_when_no_array [of mundo_caido ?story 1 "[]"]
  have c: "fallback_prompts ?story =
      [JString (js ''Render 3D de alta calidad, que muestre la escena principal del cuento: ''
                @ replicate 50 0x61 @ js ''...''),
       JString (js ''Render 3D de alta calidad, que muestre una escena de acci'' @ [0xF3]
                @ js ''n del cuento: '' @ replicate 50 0x62 @ js ''...''),
       JString (js ''Render 3D de alta calidad, que muestre el final feliz del cuento: ''
                @ replicate 20 0x63 @ js ''...'')]"
    by simp
  from a b c show ?thesis by blast
qed

text \<open>
  C6. When an attempt of the scene-prompt stage, the earlier ones having yielded no
  array, returns the text of the array \<open>["a","b","c"]\<close> between code fences, the
  extraction (the substring from the first \<open>[\<close>, without the fences, trimmed) is the
  text of the array alone, it parses to the three strings, and the stage returns them
  cut to the requested count.
\<close>

theorem fenced_array_is_extracted:
  assumes "k < maxAttempts"
    and "\<forall>i<k. prompts_of (generar_prompts w (promptText story n) i) = None"
    and "text_of (generar_prompts w (promptText story n) k) = Some fenced"
    and "0 \<le> n"
  shows "cleanedText fenced = js ''[\"a\",\"b\",\"c\"]''
       \<and> JSON_parse (cleanedText fenced) =
             Some (JArray [JString (js ''a''), JString (js ''b''), JString (js ''c'')])
       \<and> fst (generarPromptsSecuenciales w story n tr) =
             take (nat n) [JString (js ''a''), JString (js ''b''), JString (js ''c'')]"
proof -
  have clean: "cleanedText fenced = js ''[\"a\",\"b\",\"c\"]''"
    by code_simp
  have parse: "JSON_parse (cleanedText fenced) =
                 Some (JArray [JString (js ''a''), JString (js ''b''), JString (js ''c'')])"
    by code_simp
  from assms(3) parse
  have "prompts_of (generar_prompts w (promptText story n) k) =
          Some [JString (js ''a''), JString (js ''b''), JString (js ''c'')]"
    by (rule prompts_of_text)
  with assms(1,2)
  have "fst (generarPromptsSecuenciales w story n tr) =
          slice0 [JString (js ''a''), JString (js ''b''), JString (js ''c'')] n"
    by (rule generarPromptsSecuenciales_success)
  with assms(4) clean parse show ?thesis
    by (simp add: slice0_take)
qed

lemma prompts_of_no_json: "prompts_of (respuesta_texto (js ''no json'')) = None"
  by (simp add: prompts_of_def respuesta_texto_def has_candidates_def first_text_def
        first_parts_def parse_prompts_def parse_no_json)

lemma prompts_of_empty_array: "prompts_of (respuesta_texto (js ''[]'')) = None"
  by (simp add: prompts_of_def respuesta_texto_def has_candidates_def first_text_def
        first_parts_def parse_prompts_def parse_empty_array)

theorem fenced_array_is_extracted_witness:
  "cleanedText fenced = js ''[\"a\",\"b\",\"c\"]''
 \<and> JSON_parse (cleanedText fenced) =
       Some (JArray [JString (js ''a''), JString (js ''b''), JString (js ''c'')])
 \<and> fst (generarPromptsSecuenciales mundo_reintento (js ''Fin'') 2 []) =
       [JString (js ''a''), JString (js ''b'')]"
proof -
  have h1: "2 < maxAttempts" by (simp add: maxAttempts_def)
  have "\<And>i. i < 2 \<Longrightarrow> i = 0 \<or> i = Suc 0" by auto
  then have h2: "\<forall>i<2. prompts_of (generar_prompts mundo_reintento
                          (promptText (js ''Fin'') 2) i) = None"
    by (auto simp: mundo_reintento_def prompts_of_no_json prompts_of_empty_array)
  have h3: "text_of (generar_prompts mundo_reintento (promptText (js ''Fin'') 2) 2) = Some fenced"
    by (simp add: mundo_reintento_def text_of_def respuesta_texto_def has_candidates_def
          first_text_def first_parts_def)
  have h4: "(0::int) \<le> 2" by simp
  from fenced_array_is_extracted [OF h1 h2 h3 h4, of "[]"]
  have a: "cleanedText fenced = js ''[\"a\",\"b\",\"c\"]''"
    and b: "JSON_parse (cleanedText fenced) =
              Some (JArray [JString (js ''a''), JString (js ''b''), JString (js ''c'')])"
    and c: "fst (generarPromptsSecuenciales mundo_reintento (js ''Fin'') 2 []) =
              take (nat 2) [JString (js ''a''), JString (js ''b''), JString (js ''c'')]"
    by blast+
  from c have "fst (generarPromptsSecuenciales mundo_reintento (js ''Fin'') 2 []) =
                 [JString (js ''a''), JString (js ''b'')]"
    by (simp add: eval_nat_numeral)
  with a b show ?thesis by blast
qed

text \<open>
  C3 fails on the fallback path. Requested one prompt (as the route
  \<open>/create-story\<close> does) in a world where every call throws, the stage returns the
  three prompts of the fallback.
\<close>

theorem fallback_ignores_requested_count:
  "length (fst (generarPromptsSecuenciales mundo_caido (js ''Hola'') 1 [])) = 3"
proof -
  have "\<forall>i<maxAttempts.
          prompts_of (generar_prompts mundo_caido (promptText (js ''Hola'') 1) i) = None"
    by (simp add: mundo_caido_simps prompts_of_def)
  then have "fst (generarPromptsSecuenciales mundo_caido (js ''Hola'') 1 [])
               = fallback_prompts (js ''Hola'')"
    by (rule generarPromptsSecuenciales_fallback)
  then show ?thesis by (simp add: fallback_prompts_def)
qed

lemma parsed_prompts_at_most_requested:
  assumes "k < maxAttempts"
    and "\<forall>i<k. prompts_of (generar_prompts w (promptText story n) i) = None"
    and "prompts_of (generar_prompts w (promptText story n) k) = Some ps"
    and "1 \<le> n"
  shows "length (fst (generarPromptsSecuenciales w story n tr)) \<le> nat n"
proof -
  from assms(1-3) have "fst (generarPromptsSecuenciales w story n tr) = slice0 ps n"
    by (rule generarPromptsSecuenciales_success)
  with assms(4) show ?thesis by (simp add: length_slice0)
qed

section \<open>The illustration stage\<close>

lemma enumerate_nth: "enumerate 0 ps = map (\<lambda>j. (j, ps ! j)) [0..<length ps]"
  by (rule nth_equalityI) (simp_all add: nth_enumerate_eq)

lemma concat_option_filter:
  "concat (map (\<lambda>j. case F j of None \<Rightarrow> [] | Some i \<Rightarrow> [G j i]) ks) =
     map (\<lambda>j. G j (the (F j))) (filter (\<lambda>j. F j \<noteq> None) ks)"
  by (induction ks) (auto split: option.splits)

lemma urls_of_filter:
  "urls_of w 0 ps =
     map (\<lambda>j. image_url (image_fileName (date_now w j (the (primer_exito w (ps ! j) j))) j))
         (filter (\<lambda>j. primer_exito w (ps ! j) j \<noteq> None) [0..<length ps])"
proof -
  have "urls_of w 0 ps =
          concat (map (\<lambda>j. case primer_exito w (ps ! j) j of
                              None \<Rightarrow> []
                            | Some i \<Rightarrow> [image_url (image_fileName (date_now w j i) j)])
                      [0..<length ps])"
    by (simp add: urls_of_def enumerate_nth comp_def)
  then show ?thesis
    by (simp only: concat_option_filter)
qed

lemma primer_exito_None:
  "primer_exito w p j = None \<longleftrightarrow> (\<forall>i<maxAttempts. \<not> imagen_ok w p j i)"
  by (auto simp: primer_exito_def find_None_iff)

lemma urls_of_Nil:
  "urls_of w 0 ps = [] \<longleftrightarrow> (\<forall>j<length ps. primer_exito w (ps ! j) j = None)"
  by (auto simp: urls_of_filter filter_empty_conv)

text \<open>
  C7. The URLs the illustration stage collects are, in the order of the prompts, one
  for each prompt that has a successful attempt among its five, made at the first such
  attempt; a prompt all of whose attempts fail adds nothing and the loop goes on with
  the next prompt. The stage throws exactly when the list it collected is empty, that is
  when no prompt had a successful attempt; otherwise it returns the list.
\<close>

theorem illustration_skips_exhausted_prompts:
  "fst (imagenes w ps 0 [] tr) =
     map (\<lambda>j. image_url (image_fileName (date_now w j (the (primer_exito w (ps ! j) j))) j))
         (filter (\<lambda>j. primer_exito w (ps ! j) j \<noteq> None) [0..<length ps])
 \<and> (\<forall>j<length ps. primer_exito w (ps ! j) j = None
                       \<longleftrightarrow> (\<forall>i<maxAttempts. \<not> imagen_ok w (ps ! j) j i))
 \<and> (isl (fst (ilustrar w ps tr)) \<longleftrightarrow> fst (imagenes w ps 0 [] tr) = [])
 \<and> (fst (imagenes w ps 0 [] tr) = [] \<longleftrightarrow>
       (\<forall>j<length ps. primer_exito w (ps ! j) j = None))
 \<and> (fst (imagenes w ps 0 [] tr) = [] \<longrightarrow>
       fst (ilustrar w ps tr) = Inl error_sin_imagenes)
 \<and> (fst (imagenes w ps 0 [] tr) \<noteq> [] \<longrightarrow>
       fst (ilustrar w ps tr) = Inr (fst (imagenes w ps 0 [] tr)))"
proof (intro conjI allI impI)
  have urls: "fst (imagenes w ps 0 [] tr) = urls_of w 0 ps"
    using imagenes_urls [of w ps 0 "[]" tr] by simp
  obtain imageUrls tr' where run: "imagenes w ps 0 [] tr = (imageUrls, tr')"
    by (cases "imagenes w ps 0 [] tr")
  have stage: "fst (ilustrar w ps tr) =
                 (if imageUrls = [] then Inl error_sin_imagenes else Inr imageUrls)"
    by (simp add: ilustrar_def run)
  show "fst (imagenes w ps 0 [] tr) =
     map (\<lambda>j. image_url (image_fileName (date_now w j (the (primer_exito w (ps ! j) j))) j))
         (filter (\<lambda>j. primer_exito w (ps ! j) j \<noteq> None) [0..<length ps])"
    using urls by (simp only: urls_of_filter)
  show "isl (fst (ilustrar w ps tr)) \<longleftrightarrow> fst (imagenes w ps 0 [] tr) = []"
    by (simp add: stage run)
  show "fst (imagenes w ps 0 [] tr) = [] \<longleftrightarrow>
          (\<forall>j<length ps. primer_exito w (ps ! j) j = None)"
    using urls_of_Nil [of w ps] by (simp add: urls)
  show "fst (ilustrar w ps tr) = Inl error_sin_imagenes"
    if "fst (imagenes w ps 0 [] tr) = []"
    using that by (simp add: stage run)
  show "fst (ilustrar w ps tr) = Inr (fst (imagenes w ps 0 [] tr))"
    if "fst (imagenes w ps 0 [] tr) \<noteq> []"
    using that by (simp add: stage run)
next
  fix j
  show "primer_exito w (ps ! j) j = None \<longleftrightarrow> (\<forall>i<maxAttempts. \<not> imagen_ok w (ps ! j) j i)"
    by (rule primer_exito_None)
qed

lemma escena_2_urls:
  "map (\<lambda>j. image_url (image_fileName (date_now mundo_escena_2 j
               (the (primer_exito mundo_escena_2
                       ([JString (js ''uno''), JString (js ''dos''), JString (js ''tres'')] ! j) j))) j))
       (filter (\<lambda>j. primer_exito mundo_escena_2
                       ([JString (js ''uno''), JString (js ''dos''), JString (js ''tres'')] ! j) j
                     \<noteq> None)
          [0..<length [JString (js ''uno''), JString (js ''dos''), JString (js ''tres'')]])
   = [js ''/images/cuento_ilustrado_1700_1.png'', js ''/images/cuento_ilustrado_1702_3.png'']"
  by code_simp

theorem illustration_skips_exhausted_prompts_witness:
  "fst (imagenes mundo_escena_2
          [JString (js ''uno''), JString (js ''dos''), JString (js ''tres'')] 0 [] [])
     = [js ''/images/cuento_ilustrado_1700_1.png'', js ''/images/cuento_ilustrado_1702_3.png'']
 \<and> fst (ilustrar mundo_escena_2
          [JString (js ''uno''), JString (js ''dos''), JString (js ''tres'')] [])
     = Inr [js ''/images/cuento_ilustrado_1700_1.png'', js ''/images/cuento_ilustrado_1702_3.png'']
 \<and> fst (imagenes mundo_caido
          [JString (js ''uno''), JString (js ''dos''), JString (js ''tres'')] 0 [] []) = []
 \<and> fst (ilustrar mundo_caido
          [JString (js ''uno''), JString (js ''dos''), JString (js ''tres'')] [])
     = Inl error_sin_imagenes"
proof -
  let ?ps = "[JString (js ''uno''), JString (js ''dos''), JString (js ''tres'')]"
  note good = illustration_skips_exhausted_prompts [of mundo_escena_2 ?ps "[]"]
  note bad = illustration_skips_exhausted_prompts [of mundo_caido ?ps "[]"]
  from good have "fst (imagenes mundo_escena_2 ?ps 0 [] []) =
     map (\<lambda>j. image_url (image_fileName (date_now mundo_escena_2 j
                  (the (primer_exito mundo_escena_2 (?ps ! j) j))) j))
         (filter (\<lambda>j. primer_exito mundo_escena_2 (?ps ! j) j \<noteq> None) [0..<length ?ps])"
    by blast
  then have a: "fst (imagenes mundo_escena_2 ?ps 0 [] []) =
     [js ''/images/cuento_ilustrado_1700_1.png'', js ''/images/cuento_ilustrado_1702_3.png'']"
    by (simp only: escena_2_urls)
  then have "fst (imagenes mundo_escena_2 ?ps 0 [] []) \<noteq> []" by simp
  with good have "fst (ilustrar mundo_escena_2 ?ps []) = Inr (fst (imagenes mundo_escena_2 ?ps 0 [] []))"
    by blast
  with a have b: "fst (ilustrar mundo_escena_2 ?ps []) =
     Inr [js ''/images/cuento_ilustrado_1700_1.png'', js ''/images/cuento_ilustrado_1702_3.png'']"
    by simp
  have "\<forall>j<length ?ps. primer_exito mundo_caido (?ps ! j) j = None"
    by (simp add: primer_exito_None imagen_ok_def mundo_caido_simps)
  with bad have c: "fst (imagenes mundo_caido ?ps 0 [] []) = []"
    by blast
  with bad have d: "fst (ilustrar mundo_caido ?ps []) = Inl error_sin_imagenes"
    by blast
  from a b c d show ?thesis by blast
qed

section \<open>The narration stage: from PCM to the WAV data\<close>

lemma length_int16_array: "length (int16_array bs) = length bs div 2"
  by (induction bs rule: int16_array.induct) simp_all

lemma nth_int16_array:
  "k < length bs div 2 \<Longrightarrow>
     int16_array bs ! k = ucast (bs ! (2 * k)) + 256 * ucast (bs ! (2 * k + 1))"
proof (induction bs arbitrary: k rule: int16_array.induct)
  case (1 lo hi r)
  then show ?case by (cases k) simp_all
qed simp_all

lemma sample_range:
  fixes x :: "16 word"
  shows "- 1 \<le> real_of_int (sint x) / 32768" and "real_of_int (sint x) / 32768 < 1"
proof -
  have "- (2 ^ (LENGTH(16) - 1)) \<le> sint x" by (rule sint_ge)
  then have lo: "- 32768 \<le> sint x" by simp
  have "sint x < 2 ^ (LENGTH(16) - 1)" by (rule sint_lt)
  then have hi: "sint x < 32768" by simp
  from lo have "real_of_int (- 32768) \<le> real_of_int (sint x)"
    by (simp only: of_int_le_iff)
  then show "- 1 \<le> real_of_int (sint x) / 32768"
    by (simp del: of_int_sint)
  from hi have "real_of_int (sint x) < real_of_int 32768"
    by (simp only: of_int_less_iff)
  then show "real_of_int (sint x) / 32768 < 1"
    by (simp del: of_int_sint)
qed

lemma digit_char:
  assumes "k < 10"
  shows "is_digit (0x30 + of_nat k)" and "unat (0x30 + of_nat k - (0x30 :: jschar)) = k"
proof -
  from assms have "k \<in> {0, 1, 2, 3, 4, 5, 6, 7, 8, 9}" by auto
  then show "is_digit (0x30 + of_nat k)"
    by (auto simp: is_digit_def)
  from assms have "unat (of_nat k :: jschar) = k"
    by (simp add: unat_of_nat)
  then show "unat (0x30 + of_nat k - (0x30 :: jschar)) = k" by simp
qed

lemma digits_of_digits: "\<forall>d \<in> set (digits_of n). is_digit d"
proof (induction n rule: digits_of.induct)
  case (1 n)
  show ?case
  proof (cases "n < 10")
    case True
    then show ?thesis
      by (subst digits_of.simps) (simp add: digit_char(1))
  next
    case False
    moreover have "n mod 10 < 10" by simp
    ultimately show ?thesis
      using "1.IH" by (subst digits_of.simps) (simp add: digit_char(1))
  qed
qed

lemma digits_of_not_Nil: "digits_of n \<noteq> []"
  by (subst digits_of.simps) simp

lemma decimal_snoc: "decimal (ds @ [d]) = 10 * decimal ds + unat (d - 0x30)"
  by (simp add: decimal_def)

lemma decimal_digits_of: "decimal (digits_of n) = n"
proof (induction n rule: digits_of.induct)
  case (1 n)
  show ?case
  proof (cases "n < 10")
    case True
    then have "digits_of n = [] @ [0x30 + of_nat n]"
      by (subst digits_of.simps) simp
    with True show ?thesis
      by (simp only: decimal_snoc digit_char(2)) (simp add: decimal_def)
  next
    case False
    then have "digits_of n = digits_of (n div 10) @ [0x30 + of_nat (n mod 10)]"
      by (subst digits_of.simps) simp
    moreover have "n mod 10 < 10" by simp
    ultimately show ?thesis
      using "1.IH" [OF False] by (simp only: decimal_snoc digit_char(2)) simp
  qed
qed

text \<open>
  Up to \<open>2\<^sup>5\<^sup>3\<close> a whole number is a double, and \<open>parseInt\<close> of its digits is
  that number; beyond, it is rounded.
\<close>

lemma parseInt_exact:
  assumes "decimal ds < 2 ^ 53"
  shows "parseInt ds = Number (decimal ds)"
proof -
  have "(2::nat) ^ 53 \<le> 2 ^ 1024" by (rule power_increasing) simp_all
  with assms have "decimal ds < 2 ^ 1024" by (rule less_le_trans)
  with assms show ?thesis by (simp add: parseInt_def round53_exact)
qed

lemma parseInt_digits_of: "n < 2 ^ 53 \<Longrightarrow> parseInt (digits_of n) = Number n"
  using parseInt_exact [of "digits_of n"] by (simp add: decimal_digits_of)

lemma parseInt_rounds:
  "parseInt (js ''99999999999999999999'') = Number 100000000000000000000"
proof -
  have "decimal (js ''99999999999999999999'') = 99999999999999999999"
    by (simp add: decimal_def js_def)
  moreover have "round53 99999999999999999999 = 100000000000000000000"
    by (simp add: round53_def bitlen.simps)
  ultimately show ?thesis by (simp add: parseInt_def)
qed

lemma match_rate_here:
  assumes "takeWhile is_digit post = []"
  shows "match_rate (js ''rate='' @ digits_of n @ post) = Some (digits_of n)"
proof -
  have tw: "takeWhile is_digit (digits_of n @ post) = digits_of n"
    using digits_of_digits [of n] assms by (simp add: takeWhile_append2)
  have "js ''rate='' @ digits_of n @ post = 0x72 # js ''ate='' @ digits_of n @ post"
    by (simp add: js_def)
  moreover have "startsWith (0x72 # js ''ate='' @ digits_of n @ post) (js ''rate='')"
    by (simp add: startsWith_def js_def)
  moreover have "drop 5 (0x72 # js ''ate='' @ digits_of n @ post) = digits_of n @ post"
    by (simp add: js_def)
  ultimately show ?thesis
    using tw digits_of_not_Nil [of n] by simp
qed

lemma match_rate_skip:
  assumes "0x72 \<notin> set pre"
  shows "match_rate (pre @ s) = match_rate s"
  using assms
proof (induction pre)
  case Nil
  then show ?case by simp
next
  case (Cons c pre)
  then have "c \<noteq> 0x72" by auto
  then have "\<not> startsWith (c # pre @ s) (js ''rate='')"
    by (simp add: startsWith_def js_def)
  with Cons show ?case by simp
qed


lemma wavData_samples:
  assumes "match_rate mime = Some ds"
  shows "\<exists>ch. wavData mime pcm = Inr \<lparr> sampleRate = parseInt ds, channelData = [ch] \<rparr>
            \<and> length ch = length pcm div 2
            \<and> (\<forall>k<length pcm div 2.
                  ch ! k = real_of_int (sint (ucast (pcm ! (2 * k))
                                              + 256 * ucast (pcm ! (2 * k + 1)) :: 16 word)) / 32768
                \<and> - 1 \<le> ch ! k \<and> ch ! k < 1)"
proof -
  let ?ch = "map (\<lambda>sample. real_of_int (sint sample) / 32768) (int16_array pcm)"
  have "wavData mime pcm = Inr \<lparr> sampleRate = parseInt ds, channelData = [?ch] \<rparr>"
    using assms by (simp add: wavData_def)
  moreover have "length ?ch = length pcm div 2"
    by (simp add: length_int16_array)
  moreover have "?ch ! k = real_of_int (sint (ucast (pcm ! (2 * k))
                                              + 256 * ucast (pcm ! (2 * k + 1)) :: 16 word)) / 32768
                \<and> - 1 \<le> ?ch ! k \<and> ?ch ! k < 1"
    if "k < length pcm div 2" for k
  proof -
    from that have "?ch ! k = real_of_int (sint (int16_array pcm ! k)) / 32768"
      by (simp add: length_int16_array del: of_int_sint)
    with that sample_range [of "int16_array pcm ! k"] show ?thesis
      by (simp only: nth_int16_array)
  qed
  ultimately show ?thesis by blast
qed

lemma audio_loop_first_success:
  assumes "k < maxAttempts" and "i \<le> k" and "gen k = Returns r'" and "has_candidates r'"
    and "\<forall>m. i \<le> m \<and> m < k \<longrightarrow> audio_fails (gen m)"
  shows "\<exists>c. audio_loop gen i r tr = (r', tr @ rounds c [i..<k] @ [Attempt k])"
  using assms
proof (induction "k - i" arbitrary: i r tr)
  case 0
  then have "i = k" by simp
  with 0 show ?case
    by (simp add: audio_loop_success rounds_simps)
next
  case (Suc m)
  then have lt: "i < k" by simp
  with Suc.prems have fails: "audio_fails (gen i)" and lt': "i < maxAttempts" by simp_all
  from audio_loop_fail_step [of i gen r tr] lt' fails obtain x r1 where
    step: "audio_loop gen i r tr =
             audio_loop gen (Suc i) r1 (tr @ [Attempt i, Warn (i + 1) x, Sleep i])"
    by blast
  have "m = k - Suc i" using Suc.hyps(2) by simp
  moreover have "\<forall>n. Suc i \<le> n \<and> n < k \<longrightarrow> audio_fails (gen n)"
    using Suc.prems by simp
  moreover have "Suc i \<le> k" using lt by simp
  ultimately obtain c where
    "audio_loop gen (Suc i) r1 (tr @ [Attempt i, Warn (i + 1) x, Sleep i]) =
       (r', (tr @ [Attempt i, Warn (i + 1) x, Sleep i]) @ rounds c [Suc i..<k] @ [Attempt k])"
    using Suc.hyps(1) [of "Suc i" r1 "tr @ [Attempt i, Warn (i + 1) x, Sleep i]"] Suc.prems(1,3,4)
    by blast
  then have "audio_loop gen i r tr = (r', tr @ rounds (c(i := x)) [i..<k] @ [Attempt k])"
    by (simp add: step rounds_upd [OF lt])
  then show ?case by blast
qed

text \<open>
  Lines 247 to 282, once the loop has ended on a response with candidates whose first
  audio part has a media type that matches: the WAV data is given to the encoder, and
  what the encoder returns is written to the file.
\<close>

lemma generarAudioDeCuento_audio:
  assumes "audio_loop (generar_audio w cuento) 0 None tr = (r, tr')"
    and "has_candidates r" and "first_parts r = Inr ps"
    and "find is_audio_part ps = Some p" and "inlineData p = Some (InlineData mime d)"
    and "wavData mime (base64 w d) = Inr wav"
  shows "generarAudioDeCuento w cuento tr =
           (case wav_encode w wav of
              Inl e \<Rightarrow> (Inl e, tr')
            | Inr wavBuffer \<Rightarrow>
                (case audio_write_error w of
                   Some e \<Rightarrow> (Inl e, tr')
                 | None \<Rightarrow>
                     (Inr (js ''/audio/'' @ audio_fileName (audio_now w)),
                      tr' @ [Write_audio (audio_fileName (audio_now w)) wavBuffer])))"
proof -
  from assms(2) obtain resp where "r = Some resp"
    by (cases r) (simp_all add: has_candidates_def)
  with assms show ?thesis
    by (simp add: generarAudioDeCuento_def)
qed

lemma match_rate_24000:
  "match_rate (js ''audio/L16;codec=pcm;rate=24000'') = Some (js ''24000'')"
  by code_simp

lemma decimal_24000: "decimal (js ''24000'') = 24000"
  by (simp add: decimal_def js_def)

lemma parseInt_24000: "parseInt (js ''24000'') = Number 24000"
  using parseInt_exact [of "js ''24000''"] by (simp add: decimal_24000)

lemma sint_0x4000: "sint (0x4000 :: 16 word) = 16384"
  by simp

lemma wavData_24000:
  "wavData (js ''audio/L16;codec=pcm;rate=24000'') [0x00, 0x00, 0x00, 0x40] =
     Inr \<lparr> sampleRate = Number 24000, channelData = [[0, 1 / 2]] \<rparr>"
proof -
  have "real_of_int (sint (0x4000 :: 16 word)) / 32768 = 1 / 2"
    by (simp only: sint_0x4000)
  then show ?thesis
    by (simp add: wavData_def match_rate_24000 parseInt_24000 del: of_int_sint)
qed

lemma mundo_audio_simps:
  "generar_audio mundo_audio cuento i =
     respuesta_audio (js ''audio/L16;codec=pcm;rate=24000'') (js ''AAAAQA=='')"
  "base64 mundo_audio (js ''AAAAQA=='') = [0x00, 0x00, 0x00, 0x40]"
  "wav_encode mundo_audio =
     codificador \<lparr> sampleRate = Number 24000, channelData = [[0, 1 / 2]] \<rparr>"
  "audio_now mundo_audio = 1700"
  "audio_write_error mundo_audio = None"
  by (simp_all add: mundo_audio_def mundo_caido_def)

lemma respuesta_audio_parts:
  "has_candidates (Some (Response (Some [Candidate (Some
       [Part (Some (js ''ok'')) None, Part None (Some (InlineData mime d))])])))"
  "first_parts (Some (Response (Some [Candidate (Some
       [Part (Some (js ''ok'')) None, Part None (Some (InlineData mime d))])])))
     = Inr [Part (Some (js ''ok'')) None, Part None (Some (InlineData mime d))]"
  "startsWith mime (js ''audio/'') \<Longrightarrow>
     find is_audio_part [Part (Some (js ''ok'')) None, Part None (Some (InlineData mime d))]
       = Some (Part None (Some (InlineData mime d)))"
  by (simp_all add: has_candidates_def first_parts_def is_audio_part_def)

lemma audio_fileName_1700: "audio_fileName 1700 = js ''cuento_audio_1700.wav''"
  by code_simp

lemma generarAudioDeCuento_mundo_audio:
  "generarAudioDeCuento mundo_audio (js ''Fin'') [] =
     (Inr (js ''/audio/cuento_audio_1700.wav''),
      [Attempt 0, Write_audio (js ''cuento_audio_1700.wav'') [0x52, 0x49, 0x46, 0x46]])"
proof -
  let ?mime = "js ''audio/L16;codec=pcm;rate=24000''"
  have lt: "0 < maxAttempts" by (simp add: maxAttempts_def)
  have loop: "audio_loop (generar_audio mundo_audio (js ''Fin'')) 0 None [] =
                (Some (Response (Some [Candidate (Some
                   [Part (Some (js ''ok'')) None,
                    Part None (Some (InlineData ?mime (js ''AAAAQA=='')))])])), [] @ [Attempt 0])"
    by (rule audio_loop_success [OF lt])
       (simp_all add: mundo_audio_simps respuesta_audio_def respuesta_audio_parts)
  have audio: "startsWith ?mime (js ''audio/'')" by code_simp
  have wav: "wavData ?mime (base64 mundo_audio (js ''AAAAQA=='')) =
               Inr \<lparr> sampleRate = Number 24000, channelData = [[0, 1 / 2]] \<rparr>"
    by (simp only: mundo_audio_simps wavData_24000)
  have name: "js ''/audio/'' @ js ''cuento_audio_1700.wav'' = js ''/audio/cuento_audio_1700.wav''"
    by (simp add: js_def)
  show ?thesis
    using generarAudioDeCuento_audio [OF loop respuesta_audio_parts(1) respuesta_audio_parts(2)
        respuesta_audio_parts(3) [OF audio] _ wav]
    by (simp add: mundo_audio_simps codificador_def audio_fileName_1700 name)
qed

text \<open>
  C8. When the narration loop ends on a response whose first audio part has a media
  type that matches \<open>rate=<integer>\<close>, \<open>generarAudioDeCuento\<close> gives the WAV
  encoder that integer as sample rate and one channel, whose samples are the signed
  16-bit little-endian integers of the decoded payload, each divided by 32768 (so from
  -1 to below 1; a last odd byte is left out), and writes what the encoder returns to
  the audio file whose URL it returns. The digits after \<open>rate=\<close> are read as a
  decimal number, exactly so below \<open>2\<^sup>5\<^sup>3\<close>. The two samples 0 and 16384 at
  \<open>rate=24000\<close> give 0 and 0.5 at 24000 Hz.
\<close>

theorem pcm16_samples_divided_by_32768:
  "(k < maxAttempts \<and> (\<forall>i<k. audio_fails (generar_audio w cuento i))
      \<and> generar_audio w cuento k = Returns r \<and> has_candidates r
      \<and> first_parts r = Inr ps \<and> find is_audio_part ps = Some p
      \<and> inlineData p = Some (InlineData mime d) \<and> match_rate mime = Some ds \<longrightarrow>
      (\<exists>ch c.
          length ch = length (base64 w d) div 2
        \<and> (\<forall>m<length (base64 w d) div 2.
              ch ! m = real_of_int (sint (ucast (base64 w d ! (2 * m))
                                          + 256 * ucast (base64 w d ! (2 * m + 1)) :: 16 word))
                         / 32768
            \<and> - 1 \<le> ch ! m \<and> ch ! m < 1)
        \<and> generarAudioDeCuento w cuento tr =
            (case wav_encode w \<lparr> sampleRate = parseInt ds, channelData = [ch] \<rparr> of
               Inl e \<Rightarrow> (Inl e, tr @ rounds c [0..<k] @ [Attempt k])
             | Inr wavBuffer \<Rightarrow>
                 (case audio_write_error w of
                    Some e \<Rightarrow> (Inl e, tr @ rounds c [0..<k] @ [Attempt k])
                  | None \<Rightarrow>
                      (Inr (js ''/audio/'' @ audio_fileName (audio_now w)),
                       (tr @ rounds c [0..<k] @ [Attempt k])
                         @ [Write_audio (audio_fileName (audio_now w)) wavBuffer])))))
 \<and> (0x72 \<notin> set pre \<and> takeWhile is_digit post = [] \<and> n < 2 ^ 53 \<longrightarrow>
      match_rate (pre @ js ''rate='' @ digits_of n @ post) = Some (digits_of n)
    \<and> parseInt (digits_of n) = Number n)
 \<and> wavData (js ''audio/L16;codec=pcm;rate=24000'') [0x00, 0x00, 0x00, 0x40] =
      Inr \<lparr> sampleRate = Number 24000, channelData = [[0, 1 / 2]] \<rparr>
 \<and> generarAudioDeCuento mundo_audio (js ''Fin'') [] =
      (Inr (js ''/audio/cuento_audio_1700.wav''),
       [Attempt 0, Write_audio (js ''cuento_audio_1700.wav'') [0x52, 0x49, 0x46, 0x46]])"
proof (intro conjI impI)
  assume h: "k < maxAttempts \<and> (\<forall>i<k. audio_fails (generar_audio w cuento i))
      \<and> generar_audio w cuento k = Returns r \<and> has_candidates r
      \<and> first_parts r = Inr ps \<and> find is_audio_part ps = Some p
      \<and> inlineData p = Some (InlineData mime d) \<and> match_rate mime = Some ds"
  then have k: "k < maxAttempts" and fails: "\<forall>i<k. audio_fails (generar_audio w cuento i)"
    and ret: "generar_audio w cuento k = Returns r" and cands: "has_candidates r"
    and parts: "first_parts r = Inr ps" and part: "find is_audio_part ps = Some p"
    and inline: "inlineData p = Some (InlineData mime d)" and rate: "match_rate mime = Some ds"
    by blast+
  from fails have "\<forall>m. 0 \<le> m \<and> m < k \<longrightarrow> audio_fails (generar_audio w cuento m)"
    by simp
  with audio_loop_first_success [of k 0 "generar_audio w cuento" r None tr] k ret cands
  obtain c where
    loop: "audio_loop (generar_audio w cuento) 0 None tr = (r, tr @ rounds c [0..<k] @ [Attempt k])"
    by blast
  from wavData_samples [OF rate, of "base64 w d"] obtain ch where
    wav: "wavData mime (base64 w d) = Inr \<lparr> sampleRate = parseInt ds, channelData = [ch] \<rparr>"
    and len: "length ch = length (base64 w d) div 2"
    and samples: "\<forall>m<length (base64 w d) div 2.
              ch ! m = real_of_int (sint (ucast (base64 w d ! (2 * m))
                                          + 256 * ucast (base64 w d ! (2 * m + 1)) :: 16 word))
                         / 32768
            \<and> - 1 \<le> ch ! m \<and> ch ! m < 1"
    by blast
  from generarAudioDeCuento_audio [OF loop cands parts part inline wav] len samples
  show "\<exists>ch c.
          length ch = length (base64 w d) div 2
        \<and> (\<forall>m<length (base64 w d) div 2.
              ch ! m = real_of_int (sint (ucast (base64 w d ! (2 * m))
                                          + 256 * ucast (base64 w d ! (2 * m + 1)) :: 16 word))
                         / 32768
            \<and> - 1 \<le> ch ! m \<and> ch ! m < 1)
        \<and> generarAudioDeCuento w cuento tr =
            (case wav_encode w \<lparr> sampleRate = parseInt ds, channelData = [ch] \<rparr> of
               Inl e \<Rightarrow> (Inl e, tr @ rounds c [0..<k] @ [Attempt k])
             | Inr wavBuffer \<Rightarrow>
                 (case audio_write_error w of
                    Some e \<Rightarrow> (Inl e, tr @ rounds c [0..<k] @ [Attempt k])
                  | None \<Rightarrow>
                      (Inr (js ''/audio/'' @ audio_fileName (audio_now w)),
                       (tr @ rounds c [0..<k] @ [Attempt k])
                         @ [Write_audio (audio_fileName (audio_now w)) wavBuffer])))"
    by blast
next
  assume "0x72 \<notin> set pre \<and> takeWhile is_digit post = [] \<and> n < 2 ^ 53"
  then have "0x72 \<notin> set pre" and "takeWhile is_digit post = []"
    by blast+
  then show "match_rate (pre @ js ''rate='' @ digits_of n @ post) = Some (digits_of n)"
    using match_rate_skip [of pre "js ''rate='' @ digits_of n @ post"] match_rate_here [of post n]
    by simp
next
  assume "0x72 \<notin> set pre \<and> takeWhile is_digit post = [] \<and> n < 2 ^ 53"
  then have "n < 2 ^ 53" by blast
  then show "parseInt (digits_of n) = Number n"
    by (rule parseInt_digits_of)
next
  show "wavData (js ''audio/L16;codec=pcm;rate=24000'') [0x00, 0x00, 0x00, 0x40] =
      Inr \<lparr> sampleRate = Number 24000, channelData = [[0, 1 / 2]] \<rparr>"
    by (rule wavData_24000)
next
  show "generarAudioDeCuento mundo_audio (js ''Fin'') [] =
      (Inr (js ''/audio/cuento_audio_1700.wav''),
       [Attempt 0, Write_audio (js ''cuento_audio_1700.wav'') [0x52, 0x49, 0x46, 0x46]])"
    by (rule generarAudioDeCuento_mundo_audio)
qed

lemma match_rate_8000: "match_rate (js ''audio/L16;rate=8000'') = Some (js ''8000'')"
  by code_simp

lemma decimal_8000: "decimal (js ''8000'') = 8000"
  by (simp add: decimal_def js_def)

lemma parseInt_8000: "parseInt (js ''8000'') = Number 8000"
  using parseInt_exact [of "js ''8000''"] by (simp add: decimal_8000)

lemma sint_minus_one: "sint (ucast (0xFF :: 8 word) + 256 * ucast (0xFF :: 8 word) :: 16 word) = - 1"
  by simp

lemma sint_lowest: "sint (ucast (0x00 :: 8 word) + 256 * ucast (0x80 :: 8 word) :: 16 word) = - 32768"
  by simp

lemma mundo_audio_lento_simps:
  "generar_audio mundo_audio_lento cuento 0 = Throws TypeError"
  "generar_audio mundo_audio_lento cuento (Suc 0) = Returns (Some (Response None))"
  "generar_audio mundo_audio_lento cuento 2 =
     respuesta_audio (js ''audio/L16;rate=8000'') (js ''//8AgAc='')"
  "base64 mundo_audio_lento (js ''//8AgAc='') = [0xFF, 0xFF, 0x00, 0x80, 0x07]"
  "wav_encode mundo_audio_lento =
     codificador \<lparr> sampleRate = Number 8000, channelData = [[- 1 / 32768, - 1]] \<rparr>"
  "audio_now mundo_audio_lento = 1701"
  "audio_write_error mundo_audio_lento = None"
  by (simp_all add: mundo_audio_lento_def mundo_caido_def)

lemma audio_fileName_1701: "audio_fileName 1701 = js ''cuento_audio_1701.wav''"
  by code_simp

lemma two_elements: "length xs = 2 \<Longrightarrow> xs = [xs ! 0, xs ! 1]"
  by (cases xs; cases "tl xs") auto

theorem pcm16_samples_divided_by_32768_witness:
  "(\<exists>c :: nat \<Rightarrow> warning.
      generarAudioDeCuento mundo_audio_lento (js ''Fin'') [] =
        (Inr (js ''/audio/cuento_audio_1701.wav''),
         [Attempt 0, Warn 1 (c 0), Sleep 0, Attempt 1, Warn 2 (c 1), Sleep 1, Attempt 2,
          Write_audio (js ''cuento_audio_1701.wav'') [0x52, 0x49, 0x46, 0x46]]))
 \<and> match_rate (js ''audio/L16;'' @ js ''rate='' @ digits_of 8000 @ js '';x=1'')
       = Some (digits_of 8000)
 \<and> parseInt (digits_of 8000) = Number 8000"
proof -
  let ?w = "mundo_audio_lento" and ?mime = "js ''audio/L16;rate=8000''"
  let ?pcm = "[0xFF, 0xFF, 0x00, 0x80, 0x07] :: 8 word list"
  let ?r = "Some (Response (Some [Candidate (Some
              [Part (Some (js ''ok'')) None,
               Part None (Some (InlineData ?mime (js ''//8AgAc='')))])]))"
  have audio: "startsWith ?mime (js ''audio/'')" by code_simp
  have "audio_fails (generar_audio ?w (js ''Fin'') i)" if "i < 2" for i
  proof -
    from that have "i = 0 \<or> i = Suc 0" by auto
    then show ?thesis
      by (auto simp: mundo_audio_lento_simps audio_fails_def has_candidates_def)
  qed
  then have h: "2 < maxAttempts \<and> (\<forall>i<2. audio_fails (generar_audio ?w (js ''Fin'') i))
      \<and> generar_audio ?w (js ''Fin'') 2 = Returns ?r \<and> has_candidates ?r
      \<and> first_parts ?r = Inr [Part (Some (js ''ok'')) None,
                               Part None (Some (InlineData ?mime (js ''//8AgAc='')))]
      \<and> find is_audio_part [Part (Some (js ''ok'')) None,
                             Part None (Some (InlineData ?mime (js ''//8AgAc='')))]
          = Some (Part None (Some (InlineData ?mime (js ''//8AgAc=''))))
      \<and> inlineData (Part None (Some (InlineData ?mime (js ''//8AgAc=''))))
          = Some (InlineData ?mime (js ''//8AgAc=''))
      \<and> match_rate ?mime = Some (js ''8000'')"
    using respuesta_audio_parts(1) [of ?mime "js ''//8AgAc=''"]
      respuesta_audio_parts(2) [of ?mime "js ''//8AgAc=''"]
      respuesta_audio_parts(3) [OF audio, of "js ''//8AgAc=''"]
    by (simp only: match_rate_8000 mundo_audio_lento_simps respuesta_audio_def)
       (simp add: maxAttempts_def)
  from pcm16_samples_divided_by_32768 [of 2 ?w "js ''Fin''" ?r _ _ ?mime "js ''//8AgAc=''"
      "js ''8000''" "[]"] h
  obtain ch c where len: "length ch = length (base64 ?w (js ''//8AgAc='')) div 2"
    and samples: "\<forall>m<length (base64 ?w (js ''//8AgAc='')) div 2.
              ch ! m = real_of_int (sint (ucast (base64 ?w (js ''//8AgAc='') ! (2 * m))
                         + 256 * ucast (base64 ?w (js ''//8AgAc='') ! (2 * m + 1)) :: 16 word))
                         / 32768
            \<and> - 1 \<le> ch ! m \<and> ch ! m < 1"
    and run: "generarAudioDeCuento ?w (js ''Fin'') [] =
            (case wav_encode ?w \<lparr> sampleRate = parseInt (js ''8000''), channelData = [ch] \<rparr> of
               Inl e \<Rightarrow> (Inl e, [] @ rounds c [0..<2] @ [Attempt 2])
             | Inr wavBuffer \<Rightarrow>
                 (case audio_write_error ?w of
                    Some e \<Rightarrow> (Inl e, [] @ rounds c [0..<2] @ [Attempt 2])
                  | None \<Rightarrow>
                      (Inr (js ''/audio/'' @ audio_fileName (audio_now ?w)),
                       ([] @ rounds c [0..<2] @ [Attempt 2])
                         @ [Write_audio (audio_fileName (audio_now ?w)) wavBuffer])))"
    by blast
  have len2: "length ch = 2"
    using len by (simp add: mundo_audio_lento_simps)
  have e0: "?pcm ! (2 * 0) = 0xFF" "?pcm ! (2 * 0 + 1) = 0xFF"
    and e1: "?pcm ! (2 * 1) = 0x00" "?pcm ! (2 * 1 + 1) = 0x80"
    by simp_all
  have pcm: "base64 ?w (js ''//8AgAc='') = ?pcm"
    by (simp add: mundo_audio_lento_simps)
  have k0: "(0::nat) < length ?pcm div 2" and k1: "(1::nat) < length ?pcm div 2"
    by simp_all
  from samples [unfolded pcm] k0
  have "ch ! 0 = real_of_int (sint (ucast (?pcm ! (2 * 0))
                                + 256 * ucast (?pcm ! (2 * 0 + 1)) :: 16 word)) / 32768"
    by blast
  then have "ch ! 0 = real_of_int (- 1) / 32768"
    by (simp only: e0 sint_minus_one)
  then have s0: "ch ! 0 = - 1 / 32768"
    by simp
  from samples [unfolded pcm] k1
  have "ch ! 1 = real_of_int (sint (ucast (?pcm ! (2 * 1))
                                + 256 * ucast (?pcm ! (2 * 1 + 1)) :: 16 word)) / 32768"
    by blast
  then have "ch ! 1 = real_of_int (- 32768) / 32768"
    by (simp only: e1 sint_lowest)
  then have s1: "ch ! 1 = - 1"
    by simp
  from two_elements [OF len2] s0 s1 have ch: "ch = [- 1 / 32768, - 1]"
    by simp
  have name: "js ''/audio/'' @ js ''cuento_audio_1701.wav'' = js ''/audio/cuento_audio_1701.wav''"
    by (simp add: js_def)
  have two: "[0..<2] = [0, Suc 0]"
    by (simp add: upt_rec)
  from run have "generarAudioDeCuento ?w (js ''Fin'') [] =
        (Inr (js ''/audio/cuento_audio_1701.wav''),
         [Attempt 0, Warn 1 (c 0), Sleep 0, Attempt 1, Warn 2 (c 1), Sleep 1, Attempt 2,
          Write_audio (js ''cuento_audio_1701.wav'') [0x52, 0x49, 0x46, 0x46]])"
    by (simp add: ch parseInt_8000 mundo_audio_lento_simps codificador_def audio_fileName_1701
          name two rounds_simps)
  then have a: "\<exists>c :: nat \<Rightarrow> warning.
      generarAudioDeCuento ?w (js ''Fin'') [] =
        (Inr (js ''/audio/cuento_audio_1701.wav''),
         [Attempt 0, Warn 1 (c 0), Sleep 0, Attempt 1, Warn 2 (c 1), Sleep 1, Attempt 2,
          Write_audio (js ''cuento_audio_1701.wav'') [0x52, 0x49, 0x46, 0x46]])"
    by blast
  have "0x72 \<notin> set (js ''audio/L16;'') \<and> takeWhile is_digit (js '';x=1'') = []
      \<and> (8000::nat) < 2 ^ 53"
    by (simp add: js_def is_digit_def)
  with pcm16_samples_divided_by_32768 [of _ _ _ _ _ _ _ _ _ _ "js ''audio/L16;''" "js '';x=1''" 8000]
  have b: "match_rate (js ''audio/L16;'' @ js ''rate='' @ digits_of 8000 @ js '';x=1'')
             = Some (digits_of 8000) \<and> parseInt (digits_of 8000) = Number 8000"
    by blast
  from a b show ?thesis by blast
qed

section \<open>The route \<open>GET /create-story\<close>: its answers\<close>

lemma crear_Inr:
  assumes "fst (crearCuentoEImagenesSecuencia w pe lu ob n) = Inr (cuento, imageUrls)"
  shows "cuento \<noteq> [] \<and> imageUrls \<noteq> []"
  using assms
  by (auto simp: crearCuentoEImagenesSecuencia_def ilustrar_def falsy_def
        split: prod.splits if_splits sum.splits)

text \<open>
  C9. The handler of \<open>GET /create-story\<close> answers 400 with an error body when
  \<open>personaje\<close>, \<open>lugar\<close> or \<open>objeto\<close> is missing (or empty); otherwise it runs the
  pipeline for one image and answers 200 with the story and the image URLs, each
  prefixed with the protocol, \<open>://\<close> and the host of the request, when the pipeline
  returns, and 500 with one fixed error message when the pipeline throws, whatever the
  error. It gives no other answer.
\<close>

theorem create_story_responses:
  "(falsy (personaje req) \<or> falsy (lugar req) \<or> falsy (objeto req) \<longrightarrow>
      create_story w req =
        Http_response 400
          (JObject [(js ''error'',
             JString (js ''Faltan par'' @ [0xE1]
               @ js ''metros: personaje, lugar y objeto son obligatorios.''))]))
 \<and> (personaje req = Some pe \<and> lugar req = Some lu \<and> objeto req = Some ob
      \<and> pe \<noteq> [] \<and> lu \<noteq> [] \<and> ob \<noteq> [] \<and> host req = Some h
      \<and> fst (crearCuentoEImagenesSecuencia w pe lu ob 1) = Inr (cuento, imageUrls) \<longrightarrow>
      create_story w req =
        Http_response 200
          (JObject [(js ''cuento'', JString cuento),
                    (js ''imageUrls'',
                     JArray (map (\<lambda>imageUrl. JString (protocol req @ js ''://'' @ h @ imageUrl))
                               imageUrls))])
    \<and> cuento \<noteq> [] \<and> imageUrls \<noteq> [])
 \<and> (personaje req = Some pe \<and> lugar req = Some lu \<and> objeto req = Some ob
      \<and> pe \<noteq> [] \<and> lu \<noteq> [] \<and> ob \<noteq> []
      \<and> fst (crearCuentoEImagenesSecuencia w pe lu ob 1) = Inl e \<longrightarrow>
      create_story w req =
        Http_response 500
          (JObject [(js ''error'',
             JString (js ''Hubo un error al generar el cuento y la imagen.''))]))
 \<and> status (create_story w req) \<in> {400, 200, 500}"
proof (intro conjI impI)
  assume "falsy (personaje req) \<or> falsy (lugar req) \<or> falsy (objeto req)"
  then show "create_story w req =
        Http_response 400
          (JObject [(js ''error'',
             JString (js ''Faltan par'' @ [0xE1]
               @ js ''metros: personaje, lugar y objeto son obligatorios.''))])"
    by (simp add: create_story_def)
next
  assume a: "personaje req = Some pe \<and> lugar req = Some lu \<and> objeto req = Some ob
      \<and> pe \<noteq> [] \<and> lu \<noteq> [] \<and> ob \<noteq> [] \<and> host req = Some h
      \<and> fst (crearCuentoEImagenesSecuencia w pe lu ob 1) = Inr (cuento, imageUrls)"
  then show "create_story w req =
        Http_response 200
          (JObject [(js ''cuento'', JString cuento),
                    (js ''imageUrls'',
                     JArray (map (\<lambda>imageUrl. JString (protocol req @ js ''://'' @ h @ imageUrl))
                               imageUrls))])"
    by (simp add: create_story_def falsy_def host_text_def)
  from a show "cuento \<noteq> []" and "imageUrls \<noteq> []"
    using crear_Inr [of w pe lu ob 1 cuento imageUrls] by simp_all
next
  assume "personaje req = Some pe \<and> lugar req = Some lu \<and> objeto req = Some ob
      \<and> pe \<noteq> [] \<and> lu \<noteq> [] \<and> ob \<noteq> []
      \<and> fst (crearCuentoEImagenesSecuencia w pe lu ob 1) = Inl e"
  then show "create_story w req =
        Http_response 500
          (JObject [(js ''error'',
             JString (js ''Hubo un error al generar el cuento y la imagen.''))])"
    by (simp add: create_story_def falsy_def)
next
  show "status (create_story w req) \<in> {400, 200, 500}"
    by (simp add: create_story_def split: sum.splits prod.splits)
qed

lemma crear_mundo_feliz:
  "fst (crearCuentoEImagenesSecuencia mundo_feliz (js ''gato'') (js ''Lima'') (js ''mapa'') 1) =
     Inr (js ''Erase una vez un gato.'', [js ''/images/cuento_ilustrado_1700_1.png''])"
  by code_simp

lemma crear_mundo_caido:
  "fst (crearCuentoEImagenesSecuencia mundo_caido (js ''gato'') (js ''Lima'') (js ''mapa'') 1) =
     Inl error_sin_cuento"
  by code_simp

theorem create_story_responses_witness:
  "create_story mundo_feliz (peticion \<lparr> objeto := None \<rparr>) =
     Http_response 400
       (JObject [(js ''error'',
          JString (js ''Faltan par'' @ [0xE1]
            @ js ''metros: personaje, lugar y objeto son obligatorios.''))])
 \<and> create_story mundo_feliz peticion =
     Http_response 200
       (JObject [(js ''cuento'', JString (js ''Erase una vez un gato.'')),
                 (js ''imageUrls'',
                  JArray [JString (js ''http'' @ js ''://'' @ js ''localhost:3000''
                                   @ js ''/images/cuento_ilustrado_1700_1.png'')])])
 \<and> create_story mundo_caido peticion =
     Http_response 500
       (JObject [(js ''error'',
          JString (js ''Hubo un error al generar el cuento y la imagen.''))])"
proof -
  have h1: "falsy (personaje (peticion \<lparr> objeto := None \<rparr>))
          \<or> falsy (lugar (peticion \<lparr> objeto := None \<rparr>))
          \<or> falsy (objeto (peticion \<lparr> objeto := None \<rparr>))"
    by (simp add: falsy_def)
  have h2: "personaje peticion = Some (js ''gato'') \<and> lugar peticion = Some (js ''Lima'')
          \<and> objeto peticion = Some (js ''mapa'')
          \<and> js ''gato'' \<noteq> [] \<and> js ''Lima'' \<noteq> [] \<and> js ''mapa'' \<noteq> []"
    by (simp add: peticion_def js_def)
  have h3: "host peticion = Some (js ''localhost:3000'')" and h4: "protocol peticion = js ''http''"
    by (simp_all add: peticion_def)
  from create_story_responses [of "peticion \<lparr> objeto := None \<rparr>" mundo_feliz] h1
  have a: "create_story mundo_feliz (peticion \<lparr> objeto := None \<rparr>) =
     Http_response 400
       (JObject [(js ''error'',
          JString (js ''Faltan par'' @ [0xE1]
            @ js ''metros: personaje, lugar y objeto son obligatorios.''))])"
    by blast
  from create_story_responses [of peticion mundo_feliz "js ''gato''" "js ''Lima''" "js ''mapa''"
      "js ''localhost:3000''" "js ''Erase una vez un gato.''"
      "[js ''/images/cuento_ilustrado_1700_1.png'']"] h2 h3 crear_mundo_feliz
  have "create_story mundo_feliz peticion =
     Http_response 200
       (JObject [(js ''cuento'', JString (js ''Erase una vez un gato.'')),
                 (js ''imageUrls'',
                  JArray (map (\<lambda>imageUrl. JString (protocol peticion @ js ''://''
                                 @ js ''localhost:3000'' @ imageUrl))
                            [js ''/images/cuento_ilustrado_1700_1.png'']))])"
    by blast
  then have b: "create_story mundo_feliz peticion =
     Http_response 200
       (JObject [(js ''cuento'', JString (js ''Erase una vez un gato.'')),
                 (js ''imageUrls'',
                  JArray [JString (js ''http'' @ js ''://'' @ js ''localhost:3000''
                                   @ js ''/images/cuento_ilustrado_1700_1.png'')])])"
    by (simp add: h4)
  from create_story_responses [of peticion mundo_caido "js ''gato''" "js ''Lima''" "js ''mapa''"
      _ _ _ error_sin_cuento] h2 crear_mundo_caido
  have c: "create_story mundo_caido peticion =
     Http_response 500
       (JObject [(js ''error'',
          JString (js ''Hubo un error al generar el cuento y la imagen.''))])"
    by blast
  from a b c show ?thesis by blast
qed

end
